theory Spec2Isabelle
  imports Main "HOL-Library.AList" "HOL-Library.Char_ord" "HOL-Library.List_Lexorder"
begin

section \<open>Strings and integers of the source language\<close>

text \<open>
  The program is Python. A \<open>str\<close> is modelled as a \<open>string\<close>, one \<open>char\<close> per
  code point, so the model covers the code points below 256. Python's integers are
  unbounded and are modelled as \<open>int\<close>. An exception that leaves a function is a value
  \<open>Inl e\<close> of the result.
\<close>

datatype error = ValueError | TypeError | IndexError | ParseError | KeyError | BadZipFile | FileNotFoundError

definition py_ord :: "char \<Rightarrow> int" where
  "py_ord c = of_char c"

definition py_chr :: "int \<Rightarrow> char" where
  "py_chr n = char_of n"

text \<open>\<open>str.isspace\<close> on the code points below 256; \<open>str.strip()\<close> removes these at both ends.\<close>

definition isspace :: "char \<Rightarrow> bool" where
  "isspace c = (let n = py_ord c in (9 \<le> n \<and> n \<le> 13) \<or> (28 \<le> n \<and> n \<le> 32) \<or> n = 133 \<or> n = 160)"

definition strip :: "string \<Rightarrow> string" where
  "strip s = rev (dropWhile isspace (rev (dropWhile isspace s)))"

text \<open>The character classes of the regular expressions: \<open>[A-Z]\<close> and \<open>\d\<close>.\<close>

definition is_AZ :: "char \<Rightarrow> bool" where
  "is_AZ c = (py_ord CHR ''A'' \<le> py_ord c \<and> py_ord c \<le> py_ord CHR ''Z'')"

definition is_digit :: "char \<Rightarrow> bool" where
  "is_digit c = (py_ord CHR ''0'' \<le> py_ord c \<and> py_ord c \<le> py_ord CHR ''9'')"

text \<open>
  \<open>int(s)\<close> on a \<open>str\<close>: optional white space, an optional sign, decimal digits in which
  single underscores may separate digits, optional white space. The white space that
  \<open>int\<close> skips is narrower than that of \<open>strip\<close>: the code points 28 to 31 are not part
  of it. Anything else raises \<open>ValueError\<close>. The interpreter also raises \<open>ValueError\<close>
  when the literal has more digits than its conversion limit \<open>lim\<close>
  (\<open>sys.get_int_max_str_digits()\<close>: 4300 by default, 0 for no limit; literals of at most
  640 digits are never refused). The limit is a parameter of the model.
\<close>

definition int_space :: "char \<Rightarrow> bool" where
  "int_space c = (let n = py_ord c in (9 \<le> n \<and> n \<le> 13) \<or> n = 32 \<or> n = 133 \<or> n = 160)"

definition digit_value :: "char \<Rightarrow> int" where
  "digit_value c = py_ord c - py_ord CHR ''0''"

definition decimal :: "string \<Rightarrow> int" where
  "decimal ds = foldl (\<lambda>a c. a * 10 + digit_value c) 0 ds"

fun well_grouped :: "string \<Rightarrow> bool" where
  "well_grouped [] = False"
| "well_grouped [c] = is_digit c"
| "well_grouped (c # d # cs) =
     (is_digit c \<and> (if d = CHR ''_'' then well_grouped cs else well_grouped (d # cs)))"

definition over_limit :: "nat \<Rightarrow> nat \<Rightarrow> bool" where
  "over_limit lim n = (640 < n \<and> 0 < lim \<and> lim < n)"

definition int_literal :: "nat \<Rightarrow> string \<Rightarrow> error + int" where
  "int_literal lim s =
     (let t = dropWhile int_space s;
          neg = (t \<noteq> [] \<and> hd t = CHR ''-'');
          u = (if t \<noteq> [] \<and> (hd t = CHR ''+'' \<or> hd t = CHR ''-'') then tl t else t);
          body = takeWhile (\<lambda>c. is_digit c \<or> c = CHR ''_'') u;
          rest = dropWhile (\<lambda>c. is_digit c \<or> c = CHR ''_'') u;
          ds = filter is_digit body
      in if \<not> well_grouped body \<or> \<not> list_all int_space rest then Inl ValueError
         else if over_limit lim (length ds) then Inl ValueError
         else Inr ((if neg then - 1 else 1) * decimal ds))"

text \<open>\<open>int(x)\<close> where \<open>x\<close> may be \<open>None\<close> (the text of an empty element): \<open>TypeError\<close>.\<close>

definition py_int :: "nat \<Rightarrow> string option \<Rightarrow> error + int" where
  "py_int lim x = (case x of None \<Rightarrow> Inl TypeError | Some s \<Rightarrow> int_literal lim s)"

text \<open>\<open>xs[i]\<close> on a list: a negative index counts from the end; out of range raises.\<close>

definition getitem :: "'a list \<Rightarrow> int \<Rightarrow> error + 'a" where
  "getitem xs i =
     (let n = int (length xs); j = (if i < 0 then i + n else i)
      in if 0 \<le> j \<and> j < n then Inr (xs ! nat j) else Inl IndexError)"

section \<open>Cell addresses\<close>

text \<open>
  \<open>column_index_to_letter\<close>: the loop prepends one letter per round to \<open>result\<close>.
\<close>

function column_loop :: "int \<Rightarrow> string \<Rightarrow> string" where
  "column_loop col_num result =
     (if col_num > 0
      then column_loop ((col_num - 1) div 26) (py_chr ((col_num - 1) mod 26 + py_ord CHR ''A'') # result)
      else result)"
  by pat_completeness auto
termination
  by (relation "measure (\<lambda>(col_num, result). nat col_num)") auto

definition column_index_to_letter :: "int \<Rightarrow> string" where
  "column_index_to_letter col_num = column_loop col_num []"

text \<open>
  \<open>re.match(r'([A-Z]+)(\d+)', cell_ref)\<close> anchors at the start of the string only. The
  two classes are disjoint, so the groups are the longest run of letters and the longest
  run of digits that follows it, and there is a match when both are non-empty.
\<close>

definition re_match_cell_ref :: "string \<Rightarrow> (string \<times> string) option" where
  "re_match_cell_ref cell_ref =
     (let col_letters = takeWhile is_AZ cell_ref;
          row_digits = takeWhile is_digit (dropWhile is_AZ cell_ref)
      in if col_letters = [] \<or> row_digits = [] then None else Some (col_letters, row_digits))"

text \<open>The loop of \<open>excel_cell_to_coords\<close> that turns the column letters into a number.\<close>

definition letters_to_number :: "string \<Rightarrow> int" where
  "letters_to_number col_letters =
     foldl (\<lambda>col_num ch. col_num * 26 + (py_ord ch - py_ord CHR ''A'' + 1)) 0 col_letters"

text \<open>
  \<open>excel_cell_to_coords\<close>: \<open>Inr None\<close> is the pair \<open>(None, None)\<close> returned when there is
  no match; \<open>Inl\<close> is the \<open>ValueError\<close> of \<open>int\<close> on the row digits.
\<close>

definition excel_cell_to_coords :: "nat \<Rightarrow> string \<Rightarrow> error + (int \<times> int) option" where
  "excel_cell_to_coords lim cell_ref =
     (case re_match_cell_ref cell_ref of
        None \<Rightarrow> Inr None
      | Some (col_letters, row_digits) \<Rightarrow>
          (case int_literal lim row_digits of
             Inl e \<Rightarrow> Inl e
           | Inr row_num \<Rightarrow> Inr (Some (row_num - 1, letters_to_number col_letters - 1))))"

section \<open>Worksheets\<close>

text \<open>
  The markup is read through \<open>xml.etree.ElementTree\<close>, which either raises \<open>ParseError\<close>
  or yields a tree. The model starts from what the program asks of that tree. A cell
  element \<open>c\<close> gives \<open>c.get('r')\<close>, \<open>c.get('t')\<close> and \<open>c.find('.//v')\<close>: no element, or
  an element with its \<open>.text\<close>, which is \<open>None\<close> when the element is empty. A worksheet
  gives the row elements found in document order, each with the cells found below it.
  It may also declare a dimension; the program has no code that reads it.
\<close>

datatype 'a xml = NotWellFormed | Document 'a

record cell_elem =
  attr_r :: "string option"
  attr_t :: "string option"
  value_elem :: "string option option"

record worksheet =
  ws_dimension :: "string option"
  ws_rows :: "cell_elem list list"

text \<open>
  The dictionary \<open>cells\<close> is an association list in insertion order: assigning to a key
  that is present replaces its value in place, a new key goes to the end
  (\<open>AList.update\<close>). The record holds the three variables of the loop, which are also
  the triple that \<open>parse_worksheet_xml\<close> returns.
\<close>

record grid =
  cells :: "((int \<times> int) \<times> string) list"
  max_row :: int
  max_col :: int

definition text_or_empty :: "string option \<Rightarrow> string" where
  "text_or_empty text = (case text of None \<Rightarrow> [] | Some s \<Rightarrow> s)"

text \<open>The body of the \<open>try\<close> block for a cell with \<open>t="s"\<close>.\<close>

definition shared_string_lookup :: "nat \<Rightarrow> string list \<Rightarrow> string option \<Rightarrow> error + string" where
  "shared_string_lookup lim shared_strings text =
     (case py_int lim text of
        Inl e \<Rightarrow> Inl e
      | Inr string_index \<Rightarrow>
          if string_index < int (length shared_strings)
          then getitem shared_strings string_index
          else Inr [])"

text \<open>
  The value of a cell: \<open>cell_value\<close> starts empty; \<open>except (ValueError, IndexError)\<close>
  replaces it by the text of the value element, any other exception leaves the function.
\<close>

definition cell_value_of :: "nat \<Rightarrow> string list \<Rightarrow> cell_elem \<Rightarrow> error + string" where
  "cell_value_of lim shared_strings cell =
     (case value_elem cell of
        None \<Rightarrow> Inr []
      | Some text \<Rightarrow>
          if attr_t cell = Some ''s'' then
            (case shared_string_lookup lim shared_strings text of
               Inl e \<Rightarrow> if e = ValueError \<or> e = IndexError then Inr (text_or_empty text) else Inl e
             | Inr v \<Rightarrow> Inr v)
          else Inr (text_or_empty text))"

text \<open>One round of the inner loop of \<open>parse_worksheet_xml\<close>.\<close>

definition parse_cell :: "nat \<Rightarrow> string list \<Rightarrow> grid \<Rightarrow> cell_elem \<Rightarrow> error + grid" where
  "parse_cell lim shared_strings g cell =
     (case attr_r cell of
        None \<Rightarrow> Inr g
      | Some cell_ref \<Rightarrow>
          if cell_ref = [] then Inr g
          else
            (case excel_cell_to_coords lim cell_ref of
               Inl e \<Rightarrow> Inl e
             | Inr None \<Rightarrow> Inr g
             | Inr (Some (row_idx, col_idx)) \<Rightarrow>
                 (case cell_value_of lim shared_strings cell of
                    Inl e \<Rightarrow> Inl e
                  | Inr cell_value \<Rightarrow>
                      if strip cell_value \<noteq> [] then
                        Inr \<lparr>cells = AList.update (row_idx, col_idx) cell_value (cells g),
                             max_row = max (max_row g) row_idx,
                             max_col = max (max_col g) col_idx\<rparr>
                      else Inr g)))"

fun parse_cells :: "nat \<Rightarrow> string list \<Rightarrow> grid \<Rightarrow> cell_elem list \<Rightarrow> error + grid" where
  "parse_cells lim shared_strings g [] = Inr g"
| "parse_cells lim shared_strings g (cell # rest) =
     (case parse_cell lim shared_strings g cell of
        Inl e \<Rightarrow> Inl e
      | Inr g' \<Rightarrow> parse_cells lim shared_strings g' rest)"

fun parse_rows :: "nat \<Rightarrow> string list \<Rightarrow> grid \<Rightarrow> cell_elem list list \<Rightarrow> error + grid" where
  "parse_rows lim shared_strings g [] = Inr g"
| "parse_rows lim shared_strings g (row # rest) =
     (case parse_cells lim shared_strings g row of
        Inl e \<Rightarrow> Inl e
      | Inr g' \<Rightarrow> parse_rows lim shared_strings g' rest)"

definition empty_grid :: grid where
  "empty_grid = \<lparr>cells = [], max_row = 0, max_col = 0\<rparr>"

definition parse_worksheet_xml :: "nat \<Rightarrow> worksheet xml \<Rightarrow> string list \<Rightarrow> error + grid" where
  "parse_worksheet_xml lim xml_content shared_strings =
     (case xml_content of
        NotWellFormed \<Rightarrow> Inl ParseError
      | Document root \<Rightarrow> parse_rows lim shared_strings empty_grid (ws_rows root))"

section \<open>Serialising a grid\<close>

text \<open>
  \<open>cells_to_csv\<close>: the result is the sequence of rows handed to \<open>writer.writerow\<close>, in
  order. The quoting done by the \<open>csv\<close> module and the file system are not modelled.
\<close>

definition cells_get :: "((int \<times> int) \<times> string) list \<Rightarrow> int \<times> int \<Rightarrow> string" where
  "cells_get cs k = (case map_of cs k of None \<Rightarrow> [] | Some v \<Rightarrow> v)"

definition row_data_of :: "((int \<times> int) \<times> string) list \<Rightarrow> int \<Rightarrow> int \<Rightarrow> string list" where
  "row_data_of cs max_c row_idx = map (\<lambda>col_idx. cells_get cs (row_idx, col_idx)) [0..max_c]"

definition cells_to_csv :: "((int \<times> int) \<times> string) list \<Rightarrow> int \<Rightarrow> int \<Rightarrow> string list list" where
  "cells_to_csv cs max_r max_c =
     filter (list_ex (\<lambda>cell. strip cell \<noteq> [])) (map (row_data_of cs max_c) [0..max_r])"

section \<open>The inverse conversion and the pattern of the specification\<close>

text \<open>\<open>str(i)\<close> on an integer: the decimal digits, after a minus sign when negative.\<close>

definition digit_char :: "nat \<Rightarrow> char" where
  "digit_char d = py_chr (py_ord CHR ''0'' + int d)"

fun str_nat :: "nat \<Rightarrow> string" where
  "str_nat n = (if n < 10 then [digit_char n] else str_nat (n div 10) @ [digit_char (n mod 10)])"

declare str_nat.simps [simp del]

definition py_str :: "int \<Rightarrow> string" where
  "py_str i = (if i < 0 then CHR ''-'' # str_nat (nat (- i)) else str_nat (nat i))"

text \<open>
  Modelled from the spec: the program has no function from coordinates to a reference;
  only \<open>column_index_to_letter\<close> exists, and nothing calls it. The specification names
  \<open>encode(row, col)\<close> as its inverse conversion: the column letters of the 1-based
  column number, followed by the 1-based row number in decimal.
\<close>

definition encode :: "int \<Rightarrow> int \<Rightarrow> string" where
  "encode row col = column_index_to_letter (col + 1) @ py_str (row + 1)"

text \<open>
  The pattern of the specification, \<open>[A-Z]+[0-9]+\<close>, on the whole string: one or more
  letters, then one or more digits, and nothing else.
\<close>

definition matches_pattern :: "string \<Rightarrow> bool" where
  "matches_pattern ref =
     (takeWhile is_AZ ref \<noteq> [] \<and> dropWhile is_AZ ref \<noteq> [] \<and> list_all is_digit (dropWhile is_AZ ref))"

section \<open>Packages and the conversion of a file\<close>

text \<open>
  What the program prints and writes is a trace of effects, in order. A \<open>print\<close> is
  recorded with the values that its message is built from, and a CSV file with the rows
  written to it. A function that has effects returns the trace it produced, up to the
  exception when one leaves it. Creating the output directory and opening the output
  file are taken to succeed.
\<close>

datatype message =
    NoSharedStrings
  | NoWorksheetFiles
  | FoundWorksheets nat
  | Processing string
  | NoDataFound string
  | FoundData nat int int
  | SavedTo string
  | ProcessingFile string
  | FileNotFound string
  | Converted string
  | ErrorConverting string error
  | Summary nat nat nat
  | AllSaved
  | HadErrors nat

datatype effect = Print message | WriteCsv string "string list list"

text \<open>
  A package is an open \<open>ZipFile\<close>: the shared-string part, absent (\<open>zip_file.open\<close>
  raises \<open>KeyError\<close>) or present with its string items, each giving \<open>si.find('.//t')\<close>;
  and its other members in archive order, each a name with its content. \<open>namelist\<close> gives
  the names; opening a name gives the last member of that name, and raises \<open>KeyError\<close>
  when there is none. The name of the shared-string part is not the name of a worksheet,
  so it is left out of \<open>namelist\<close>.
\<close>

type_synonym si_elem = "string option option"

record package =
  shared_strings_part :: "si_elem list xml option"
  members :: "(string \<times> worksheet xml) list"

definition namelist :: "package \<Rightarrow> string list" where
  "namelist zip_file = map fst (members zip_file)"

definition zip_open :: "package \<Rightarrow> string \<Rightarrow> error + worksheet xml" where
  "zip_open zip_file name =
     (case map_of (rev (members zip_file)) name of None \<Rightarrow> Inl KeyError | Some content \<Rightarrow> Inr content)"

definition si_text :: "si_elem \<Rightarrow> string" where
  "si_text si = (case si of None \<Rightarrow> [] | Some text \<Rightarrow> text_or_empty text)"

definition parse_shared_strings :: "package \<Rightarrow> effect list \<times> (error + string list)" where
  "parse_shared_strings zip_file =
     (case shared_strings_part zip_file of
        None \<Rightarrow> ([Print NoSharedStrings], Inr [])
      | Some NotWellFormed \<Rightarrow> ([], Inl ParseError)
      | Some (Document items) \<Rightarrow> ([], Inr (map si_text items)))"

definition startswith :: "string \<Rightarrow> string \<Rightarrow> bool" where
  "startswith s p = (take (length p) s = p)"

definition endswith :: "string \<Rightarrow> string \<Rightarrow> bool" where
  "endswith s p = (length p \<le> length s \<and> drop (length s - length p) s = p)"

text \<open>\<open>re.search(r'sheet(\d+)', s)\<close>: the digits of the leftmost match, if there is one.\<close>

fun re_search_sheet :: "string \<Rightarrow> string option" where
  "re_search_sheet [] = None"
| "re_search_sheet (c # cs) =
     (let ds = takeWhile is_digit (drop 5 (c # cs))
      in if take 5 (c # cs) = ''sheet'' \<and> ds \<noteq> [] then Some ds else re_search_sheet cs)"

definition sheet_name_of :: "string \<Rightarrow> string" where
  "sheet_name_of worksheet_file =
     (case re_search_sheet worksheet_file of Some ds \<Rightarrow> ''sheet'' @ ds | None \<Rightarrow> ''sheet'')"

text \<open>Reading one worksheet part and decoding it.\<close>

definition parse_part :: "nat \<Rightarrow> package \<Rightarrow> string \<Rightarrow> string list \<Rightarrow> error + grid" where
  "parse_part lim zip_file worksheet_file shared_strings =
     (case zip_open zip_file worksheet_file of
        Inl e \<Rightarrow> Inl e
      | Inr xml_content \<Rightarrow> parse_worksheet_xml lim xml_content shared_strings)"

text \<open>
  The loop of \<open>convert_xlsx_to_csv\<close> over the sorted worksheet names. The name of the
  CSV file is given without the output directory. The loop has no \<open>try\<close>: an exception
  of \<open>parse_worksheet_xml\<close> ends it.
\<close>

fun process_worksheets ::
  "nat \<Rightarrow> package \<Rightarrow> string \<Rightarrow> string list \<Rightarrow> string list \<Rightarrow> effect list \<times> error option" where
  "process_worksheets lim zip_file base_name shared_strings [] = ([], None)"
| "process_worksheets lim zip_file base_name shared_strings (worksheet_file # rest) =
     (let sheet_name = sheet_name_of worksheet_file
      in case parse_part lim zip_file worksheet_file shared_strings of
           Inl e \<Rightarrow> ([Print (Processing worksheet_file)], Some e)
         | Inr g \<Rightarrow>
             let csv_filename = base_name @ ''_'' @ sheet_name @ ''.csv'';
                 here =
                   (if cells g = []
                    then [Print (Processing worksheet_file), Print (NoDataFound sheet_name)]
                    else [Print (Processing worksheet_file),
                          Print (FoundData (length (cells g)) (max_row g + 1) (max_col g + 1)),
                          WriteCsv csv_filename (cells_to_csv (cells g) (max_row g) (max_col g)),
                          Print (SavedTo csv_filename)]);
                 (later, outcome) = process_worksheets lim zip_file base_name shared_strings rest
             in (here @ later, outcome))"

text \<open>
  An input file: its path, the base name that \<open>os.path\<close> derives from the path, and what
  is at the path. \<open>ZipFile\<close> raises for a file that is missing or is not an archive.
\<close>

datatype disk_entry = Missing | NotAZip | Zip package

record xlsx_file =
  file_path :: string
  file_base_name :: string
  file_content :: disk_entry

definition path_exists :: "xlsx_file \<Rightarrow> bool" where
  "path_exists xlsx = (case file_content xlsx of Missing \<Rightarrow> False | _ \<Rightarrow> True)"

definition is_worksheet_name :: "string \<Rightarrow> bool" where
  "is_worksheet_name f = (startswith f ''xl/worksheets/sheet'' \<and> endswith f ''.xml'')"

definition convert_package :: "nat \<Rightarrow> string \<Rightarrow> package \<Rightarrow> effect list \<times> error option" where
  "convert_package lim base_name zip_file =
     (case parse_shared_strings zip_file of
        (printed, Inl e) \<Rightarrow> (printed, Some e)
      | (printed, Inr shared_strings) \<Rightarrow>
          let worksheet_files = filter is_worksheet_name (namelist zip_file)
          in if worksheet_files = [] then (printed @ [Print NoWorksheetFiles], None)
             else
               let (later, outcome) =
                     process_worksheets lim zip_file base_name shared_strings (sort worksheet_files)
               in (printed @ [Print (FoundWorksheets (length worksheet_files))] @ later, outcome))"

definition convert_xlsx_to_csv :: "nat \<Rightarrow> xlsx_file \<Rightarrow> effect list \<times> error option" where
  "convert_xlsx_to_csv lim xlsx =
     (case file_content xlsx of
        Missing \<Rightarrow> ([], Some FileNotFoundError)
      | NotAZip \<Rightarrow> ([], Some BadZipFile)
      | Zip zip_file \<Rightarrow> convert_package lim (file_base_name xlsx) zip_file)"

text \<open>
  The loop of \<open>main\<close> over the files, with its two counters, and \<open>main\<close> with its summary.
  \<open>except Exception\<close> catches every exception of the model.
\<close>

fun main_loop :: "nat \<Rightarrow> xlsx_file list \<Rightarrow> nat \<Rightarrow> nat \<Rightarrow> effect list \<times> nat \<times> nat" where
  "main_loop lim [] successful failed = ([], successful, failed)"
| "main_loop lim (xlsx # rest) successful failed =
     (if \<not> path_exists xlsx then
        (let (later, counts) = main_loop lim rest successful (failed + 1)
         in ([Print (ProcessingFile (file_path xlsx)), Print (FileNotFound (file_path xlsx))] @ later, counts))
      else
        (case convert_xlsx_to_csv lim xlsx of
           (trace, None) \<Rightarrow>
             (let (later, counts) = main_loop lim rest (successful + 1) failed
              in ([Print (ProcessingFile (file_path xlsx))] @ trace @
                  [Print (Converted (file_path xlsx))] @ later, counts))
         | (trace, Some e) \<Rightarrow>
             (let (later, counts) = main_loop lim rest successful (failed + 1)
              in ([Print (ProcessingFile (file_path xlsx))] @ trace @
                  [Print (ErrorConverting (file_path xlsx) e)] @ later, counts))))"

definition main :: "nat \<Rightarrow> xlsx_file list \<Rightarrow> effect list \<times> nat \<times> nat" where
  "main lim xlsx_files =
     (let (trace, successful, failed) = main_loop lim xlsx_files 0 0
      in (trace @ [Print (Summary successful failed (length xlsx_files))] @
          (if successful > 0 then [Print AllSaved] else []) @
          (if failed > 0 then [Print (HadErrors failed)] else []),
          successful, failed))"

section \<open>Cell addresses on all code points\<close>

text \<open>
  A \<open>str\<close> holds code points up to 1114111, and both the class \<open>\d\<close> of the regular
  expression and \<open>int\<close> take every Unicode decimal digit, of any script. The decoder is
  therefore given once more on lists of code points; on code points below 256 it is the
  decoder above. Which code points from 128 on are decimal digits depends on the Unicode
  database of the interpreter. There the ten digits of a script are consecutive code
  points in ascending order of value, and the parameter \<open>zeros\<close> lists the code points
  of the digits of value 0.
\<close>

definition code_points :: "string \<Rightarrow> nat list" where
  "code_points s = map of_char s"

definition cp_is_AZ :: "nat \<Rightarrow> bool" where
  "cp_is_AZ c = (65 \<le> c \<and> c \<le> 90)"

text \<open>The decimal value of a code point, if it is a decimal digit; \<open>\d\<close> matches these.\<close>

definition todecimal :: "nat list \<Rightarrow> nat \<Rightarrow> nat option" where
  "todecimal zeros c =
     (if 48 \<le> c \<and> c \<le> 57 then Some (c - 48)
      else if c < 128 then None
      else (case filter (\<lambda>z. z \<le> c \<and> c \<le> z + 9) zeros of [] \<Rightarrow> None | z # _ \<Rightarrow> Some (c - z)))"

definition cp_is_decimal :: "nat list \<Rightarrow> nat \<Rightarrow> bool" where
  "cp_is_decimal zeros c = (todecimal zeros c \<noteq> None)"

text \<open>The white space of Unicode, as \<open>str.isspace\<close> and \<open>int\<close> see it.\<close>

definition cp_isspace :: "nat \<Rightarrow> bool" where
  "cp_isspace c =
     ((9 \<le> c \<and> c \<le> 13) \<or> (28 \<le> c \<and> c \<le> 32) \<or> c = 133 \<or> c = 160 \<or> c = 5760 \<or>
      (8192 \<le> c \<and> c \<le> 8202) \<or> c = 8232 \<or> c = 8233 \<or> c = 8239 \<or> c = 8287 \<or> c = 12288)"

text \<open>
  \<open>int\<close> on a \<open>str\<close> that is not all ASCII first rewrites it: a code point below 127
  stays, white space becomes a space, a decimal digit becomes the ASCII digit of its
  value, and anything else becomes a question mark, where the rewriting stops. The
  result is read as above. A string that is all ASCII is read as it is.
\<close>

fun to_ascii :: "nat list \<Rightarrow> nat list \<Rightarrow> string" where
  "to_ascii zeros [] = []"
| "to_ascii zeros (c # cs) =
     (if c < 127 then char_of c # to_ascii zeros cs
      else if cp_isspace c then CHR '' '' # to_ascii zeros cs
      else (case todecimal zeros c of
              None \<Rightarrow> ''?''
            | Some d \<Rightarrow> digit_char d # to_ascii zeros cs))"

definition cp_int_literal :: "nat list \<Rightarrow> nat \<Rightarrow> nat list \<Rightarrow> error + int" where
  "cp_int_literal zeros lim s =
     int_literal lim (if list_all (\<lambda>c. c < 128) s then map char_of s else to_ascii zeros s)"

definition cp_re_match_cell_ref :: "nat list \<Rightarrow> nat list \<Rightarrow> (nat list \<times> nat list) option" where
  "cp_re_match_cell_ref zeros cell_ref =
     (let col_letters = takeWhile cp_is_AZ cell_ref;
          row_digits = takeWhile (cp_is_decimal zeros) (dropWhile cp_is_AZ cell_ref)
      in if col_letters = [] \<or> row_digits = [] then None else Some (col_letters, row_digits))"

definition cp_letters_to_number :: "nat list \<Rightarrow> int" where
  "cp_letters_to_number col_letters =
     foldl (\<lambda>col_num ch. col_num * 26 + (int ch - 65 + 1)) 0 col_letters"

definition cp_excel_cell_to_coords :: "nat list \<Rightarrow> nat \<Rightarrow> nat list \<Rightarrow> error + (int \<times> int) option" where
  "cp_excel_cell_to_coords zeros lim cell_ref =
     (case cp_re_match_cell_ref zeros cell_ref of
        None \<Rightarrow> Inr None
      | Some (col_letters, row_digits) \<Rightarrow>
          (case cp_int_literal zeros lim row_digits of
             Inl e \<Rightarrow> Inl e
           | Inr row_num \<Rightarrow> Inr (Some (row_num - 1, cp_letters_to_number col_letters - 1))))"

text \<open>The number that a run of decimal digits stands for.\<close>

definition digits_value :: "nat list \<Rightarrow> nat list \<Rightarrow> int" where
  "digits_value zeros ds =
     foldl (\<lambda>a c. a * 10 + int (case todecimal zeros c of None \<Rightarrow> 0 | Some d \<Rightarrow> d)) 0 ds"

text \<open>No decimal digit of the database is white space.\<close>

definition digits_not_space :: "nat list \<Rightarrow> bool" where
  "digits_not_space zeros = list_all (\<lambda>z. list_all (\<lambda>c. \<not> cp_isspace c) [z..<z + 10]) zeros"

section \<open>Properties of the address codec\<close>

lemma py_ord_chr: "0 \<le> n \<Longrightarrow> n < 256 \<Longrightarrow> py_ord (py_chr n) = n"
  by (simp add: py_ord_def py_chr_def)

lemma py_chr_ord: "py_chr (py_ord c) = c"
  by (simp add: py_ord_def py_chr_def)

lemma py_ord_range: "0 \<le> py_ord c \<and> py_ord c < 256"
proof -
  have "py_ord c = int (of_char c)"
    by (simp add: py_ord_def of_nat_of_char)
  moreover have "(of_char c :: nat) < 256"
    by simp
  ultimately show ?thesis by simp
qed

lemma py_ord_consts:
  "py_ord CHR ''A'' = 65" "py_ord CHR ''Z'' = 90" "py_ord CHR ''0'' = 48" "py_ord CHR ''9'' = 57"
  by (simp_all add: py_ord_def)

lemma column_loop_append: "column_loop n acc = column_loop n [] @ acc"
proof (induction "nat n" arbitrary: n acc rule: less_induct)
  case less
  show ?case
  proof (cases "n > 0")
    case True
    let ?c = "py_chr ((n - 1) mod 26 + py_ord CHR ''A'')"
    let ?q = "(n - 1) div 26"
    have smaller: "nat ?q < nat n" using True by auto
    have "column_loop n acc = column_loop ?q (?c # acc)"
      using True by simp
    also have "\<dots> = column_loop ?q [] @ ?c # acc"
      using less [OF smaller] .
    also have "\<dots> = (column_loop ?q [] @ [?c]) @ acc"
      by simp
    also have "column_loop ?q [] @ [?c] = column_loop ?q [?c]"
      using less [OF smaller, of "[?c]"] by simp
    also have "column_loop ?q [?c] = column_loop n []"
      using True by simp
    finally show ?thesis .
  next
    case False
    then show ?thesis by simp
  qed
qed

lemma column_index_to_letter_pos:
  "0 < n \<Longrightarrow> column_index_to_letter n =
     column_index_to_letter ((n - 1) div 26) @ [py_chr ((n - 1) mod 26 + py_ord CHR ''A'')]"
  unfolding column_index_to_letter_def
  using column_loop_append [of "(n - 1) div 26" "[py_chr ((n - 1) mod 26 + py_ord CHR ''A'')]"]
  by simp

lemma column_index_to_letter_nonpos: "n \<le> 0 \<Longrightarrow> column_index_to_letter n = []"
  by (simp add: column_index_to_letter_def)

lemma letters_to_number_Nil: "letters_to_number [] = 0"
  by (simp add: letters_to_number_def)

lemma letters_to_number_snoc:
  "letters_to_number (ls @ [c]) = letters_to_number ls * 26 + (py_ord c - py_ord CHR ''A'' + 1)"
  by (simp add: letters_to_number_def)

lemma letters_to_number_column: "0 \<le> n \<Longrightarrow> letters_to_number (column_index_to_letter n) = n"
proof (induction "nat n" arbitrary: n rule: less_induct)
  case less
  show ?case
  proof (cases "n = 0")
    case True
    then show ?thesis
      by (simp add: column_index_to_letter_nonpos letters_to_number_Nil)
  next
    case False
    with less.prems have pos: "0 < n" by simp
    let ?q = "(n - 1) div 26" and ?r = "(n - 1) mod 26"
    have q: "letters_to_number (column_index_to_letter ?q) = ?q"
      using pos by (intro less.hyps) auto
    have r: "py_ord (py_chr (?r + py_ord CHR ''A'')) = ?r + py_ord CHR ''A''"
      by (rule py_ord_chr) (simp_all add: py_ord_consts)
    have "letters_to_number (column_index_to_letter n) = ?q * 26 + (?r + 1)"
      by (simp add: column_index_to_letter_pos [OF pos] letters_to_number_snoc q r)
    also have "\<dots> = n"
      by (simp add: algebra_simps)
    finally show ?thesis .
  qed
qed

lemma letters_to_number_nonneg: "list_all is_AZ ls \<Longrightarrow> 0 \<le> letters_to_number ls"
  by (induction ls rule: rev_induct) (auto simp: letters_to_number_Nil letters_to_number_snoc is_AZ_def)

lemma letters_to_number_pos: "list_all is_AZ ls \<Longrightarrow> ls \<noteq> [] \<Longrightarrow> 1 \<le> letters_to_number ls"
  using letters_to_number_nonneg
  by (cases ls rule: rev_cases) (auto simp: letters_to_number_snoc is_AZ_def)

lemma column_of_letters: "list_all is_AZ ls \<Longrightarrow> column_index_to_letter (letters_to_number ls) = ls"
proof (induction ls rule: rev_induct)
  case Nil
  then show ?case
    by (simp add: letters_to_number_Nil column_index_to_letter_nonpos)
next
  case (snoc c ls)
  then have ls: "list_all is_AZ ls" and c: "is_AZ c" by simp_all
  let ?m = "letters_to_number ls" and ?v = "py_ord c - py_ord CHR ''A''"
  have m: "0 \<le> ?m" using ls by (rule letters_to_number_nonneg)
  have v: "0 \<le> ?v" "?v < 26" using c by (simp_all add: is_AZ_def py_ord_consts)
  have n: "letters_to_number (ls @ [c]) = ?m * 26 + ?v + 1"
    by (simp add: letters_to_number_snoc)
  have pos: "0 < ?m * 26 + ?v + 1" using m v by simp
  have d: "(?m * 26 + ?v + 1 - 1) div 26 = ?m" using v by simp
  have r: "(?m * 26 + ?v + 1 - 1) mod 26 = ?v" using v by simp
  have "column_index_to_letter (?m * 26 + ?v + 1) = column_index_to_letter ?m @ [py_chr (?v + py_ord CHR ''A'')]"
    using column_index_to_letter_pos [OF pos] by (simp only: d r)
  also have "\<dots> = ls @ [c]"
    using snoc.IH [OF ls] by (simp add: py_chr_ord)
  finally show ?case by (simp only: n)
qed

lemma is_digit_not_AZ: "is_digit c \<Longrightarrow> \<not> is_AZ c"
  by (simp add: is_digit_def is_AZ_def py_ord_consts)

lemma is_digit_not_space: "is_digit c \<Longrightarrow> \<not> int_space c"
  by (simp add: is_digit_def int_space_def py_ord_consts Let_def)

lemma is_digit_not_sign: "is_digit c \<Longrightarrow> c \<noteq> CHR ''+'' \<and> c \<noteq> CHR ''-'' \<and> c \<noteq> CHR ''_''"
  by (auto simp: is_digit_def py_ord_def)

lemma decimal_Nil: "decimal [] = 0"
  by (simp add: decimal_def)

lemma decimal_snoc: "decimal (ds @ [c]) = decimal ds * 10 + digit_value c"
  by (simp add: decimal_def)

lemma digit_value_range: "is_digit c \<Longrightarrow> 0 \<le> digit_value c \<and> digit_value c < 10"
  by (simp add: is_digit_def digit_value_def py_ord_consts)

lemma digit_char_value: "is_digit c \<Longrightarrow> digit_char (nat (digit_value c)) = c"
  by (simp add: is_digit_def digit_value_def digit_char_def py_ord_consts py_chr_ord)

lemma py_ord_inj: "py_ord c = py_ord d \<Longrightarrow> c = d"
  by (simp add: py_ord_def)

lemma digit_value_zero: "digit_value c = 0 \<longleftrightarrow> c = CHR ''0''"
  using py_ord_inj [of c "CHR ''0''"] by (auto simp: digit_value_def)

lemma decimal_nonneg: "list_all is_digit ds \<Longrightarrow> 0 \<le> decimal ds"
  by (induction ds rule: rev_induct) (auto simp: decimal_Nil decimal_snoc dest: digit_value_range)

lemma decimal_pos:
  "list_all is_digit ds \<Longrightarrow> ds \<noteq> [] \<Longrightarrow> hd ds \<noteq> CHR ''0'' \<Longrightarrow> 1 \<le> decimal ds"
proof (induction ds rule: rev_induct)
  case Nil
  then show ?case by simp
next
  case (snoc c ds)
  then have c: "is_digit c" and ds: "list_all is_digit ds" by simp_all
  show ?case
  proof (cases "ds = []")
    case True
    with snoc.prems c show ?thesis
      using digit_value_range [OF c] digit_value_zero [of c]
      by (simp add: decimal_def)
  next
    case False
    with snoc have "1 \<le> decimal ds" by simp
    then show ?thesis
      using digit_value_range [OF c] by (simp add: decimal_snoc)
  qed
qed

lemma str_nat_decimal:
  "list_all is_digit ds \<Longrightarrow> ds \<noteq> [] \<Longrightarrow> ds = ''0'' \<or> hd ds \<noteq> CHR ''0'' \<Longrightarrow>
     str_nat (nat (decimal ds)) = ds"
proof (induction ds rule: rev_induct)
  case Nil
  then show ?case by simp
next
  case (snoc c ds)
  then have c: "is_digit c" and ds: "list_all is_digit ds" by simp_all
  note v = digit_value_range [OF c]
  show ?case
  proof (cases "ds = []")
    case True
    have small: "nat (digit_value c) < 10"
      using v by linarith
    have "str_nat (nat (digit_value c)) = [digit_char (nat (digit_value c))]"
      by (subst str_nat.simps) (simp add: small)
    then show ?thesis
      using True by (simp add: decimal_def digit_char_value [OF c])
  next
    case False
    with snoc.prems have hd: "hd ds \<noteq> CHR ''0''" by auto
    have ih: "str_nat (nat (decimal ds)) = ds"
      using snoc.IH ds False hd by simp
    have big: "1 \<le> decimal ds"
      using ds False hd by (rule decimal_pos)
    let ?n = "nat (decimal ds * 10 + digit_value c)"
    have small: "nat (digit_value c) < 10"
      using v by linarith
    have n: "?n = nat (decimal ds) * 10 + nat (digit_value c)"
      using big v by (simp add: nat_add_distrib nat_mult_distrib)
    have "1 \<le> nat (decimal ds)"
      using big by linarith
    then have "\<not> ?n < 10"
      unfolding n by linarith
    then have "str_nat ?n = str_nat (?n div 10) @ [digit_char (?n mod 10)]"
      by (subst str_nat.simps) simp
    also have "?n div 10 = nat (decimal ds)"
      unfolding n using small by simp
    also have "?n mod 10 = nat (digit_value c)"
      unfolding n using small by simp
    finally show ?thesis
      by (simp add: decimal_snoc ih digit_char_value [OF c])
  qed
qed

lemma well_grouped_digits: "list_all is_digit ds \<Longrightarrow> ds \<noteq> [] \<Longrightarrow> well_grouped ds"
  by (induction ds rule: well_grouped.induct) (auto dest: is_digit_not_sign)

lemma int_literal_digits:
  assumes "list_all is_digit ds" and "ds \<noteq> []"
  shows "int_literal lim ds = (if over_limit lim (length ds) then Inl ValueError else Inr (decimal ds))"
proof -
  obtain c cs where ds: "ds = c # cs" using assms(2) by (cases ds) auto
  then have c: "is_digit c" using assms(1) by simp
  have t: "dropWhile int_space ds = ds"
    using c by (simp add: ds is_digit_not_space)
  have all: "\<forall>x\<in>set ds. is_digit x \<or> x = CHR ''_''"
    using assms(1) by (simp add: list_all_iff)
  have body: "takeWhile (\<lambda>c. is_digit c \<or> c = CHR ''_'') ds = ds"
    using all by (simp add: takeWhile_eq_all_conv)
  have rest: "dropWhile (\<lambda>c. is_digit c \<or> c = CHR ''_'') ds = []"
    using all by simp
  have f: "filter is_digit ds = ds"
    using assms(1) by (simp add: list_all_iff)
  have sign: "hd ds \<noteq> CHR ''+''" "hd ds \<noteq> CHR ''-''"
    using is_digit_not_sign [OF c] by (simp_all add: ds)
  show ?thesis
    unfolding int_literal_def t Let_def
    using sign well_grouped_digits [OF assms] by (simp add: body rest f)
qed

lemma re_match_prefix:
  assumes "list_all is_AZ ls" and "ls \<noteq> []" and "list_all is_digit ds" and "ds \<noteq> []"
  shows "re_match_cell_ref (ls @ ds @ rest) = Some (ls, ds @ takeWhile is_digit rest)"
proof -
  obtain d ds' where ds: "ds = d # ds'" using assms(4) by (cases ds) auto
  then have d: "\<not> is_AZ d" using assms(3) by (simp add: is_digit_not_AZ)
  have ls: "\<forall>x\<in>set ls. is_AZ x" using assms(1) by (simp add: list_all_iff)
  have dsall: "\<forall>x\<in>set ds. is_digit x" using assms(3) by (simp add: list_all_iff)
  have t: "takeWhile is_AZ (ls @ ds @ rest) = ls"
    using ls d by (simp add: ds takeWhile_append2)
  have r: "dropWhile is_AZ (ls @ ds @ rest) = ds @ rest"
    using ls d by (simp add: ds dropWhile_append2)
  have "takeWhile is_digit (ds @ rest) = ds @ takeWhile is_digit rest"
    using dsall by (simp add: takeWhile_append2)
  then show ?thesis
    using assms(2,4) by (simp add: re_match_cell_ref_def t r)
qed

lemma re_match_Some:
  assumes "re_match_cell_ref ref = Some (ls, ds)"
  shows "ls \<noteq> [] \<and> ds \<noteq> [] \<and> list_all is_AZ ls \<and> list_all is_digit ds \<and>
         ref = ls @ ds @ dropWhile is_digit (dropWhile is_AZ ref)"
proof -
  from assms have ls: "ls = takeWhile is_AZ ref" and ds: "ds = takeWhile is_digit (dropWhile is_AZ ref)"
    and ne: "ls \<noteq> []" "ds \<noteq> []"
    by (auto simp: re_match_cell_ref_def Let_def split: if_splits)
  have "list_all is_AZ ls"
    unfolding ls list_all_iff by (auto dest: set_takeWhileD)
  moreover have "list_all is_digit ds"
    unfolding ds list_all_iff by (auto dest: set_takeWhileD)
  moreover have "ref = ls @ ds @ dropWhile is_digit (dropWhile is_AZ ref)"
    unfolding ls ds by simp
  ultimately show ?thesis using ne by simp
qed

lemma re_match_None_iff:
  "re_match_cell_ref ref = None \<longleftrightarrow>
     \<not> (\<exists>ls ds rest. ref = ls @ ds @ rest \<and> ls \<noteq> [] \<and> ds \<noteq> [] \<and> list_all is_AZ ls \<and> list_all is_digit ds)"
proof
  assume none: "re_match_cell_ref ref = None"
  show "\<not> (\<exists>ls ds rest. ref = ls @ ds @ rest \<and> ls \<noteq> [] \<and> ds \<noteq> [] \<and> list_all is_AZ ls \<and> list_all is_digit ds)"
  proof
    assume "\<exists>ls ds rest. ref = ls @ ds @ rest \<and> ls \<noteq> [] \<and> ds \<noteq> [] \<and> list_all is_AZ ls \<and> list_all is_digit ds"
    then obtain ls ds rest where "ref = ls @ ds @ rest" "ls \<noteq> []" "ds \<noteq> []"
      "list_all is_AZ ls" "list_all is_digit ds" by blast
    then have "re_match_cell_ref ref = Some (ls, ds @ takeWhile is_digit rest)"
      by (simp add: re_match_prefix)
    with none show False by simp
  qed
next
  assume no: "\<not> (\<exists>ls ds rest. ref = ls @ ds @ rest \<and> ls \<noteq> [] \<and> ds \<noteq> [] \<and> list_all is_AZ ls \<and> list_all is_digit ds)"
  show "re_match_cell_ref ref = None"
  proof (cases "re_match_cell_ref ref")
    case None
    then show ?thesis .
  next
    case (Some p)
    obtain ls ds where "p = (ls, ds)" by (cases p)
    with Some re_match_Some [of ref ls ds] no show ?thesis by blast
  qed
qed

lemma matches_pattern_iff:
  "matches_pattern ref \<longleftrightarrow>
     (\<exists>ls ds. ref = ls @ ds \<and> ls \<noteq> [] \<and> ds \<noteq> [] \<and> list_all is_AZ ls \<and> list_all is_digit ds)"
proof
  assume m: "matches_pattern ref"
  let ?ls = "takeWhile is_AZ ref" and ?ds = "dropWhile is_AZ ref"
  have "list_all is_AZ ?ls"
    unfolding list_all_iff by (auto dest: set_takeWhileD)
  with m have "ref = ?ls @ ?ds \<and> ?ls \<noteq> [] \<and> ?ds \<noteq> [] \<and> list_all is_AZ ?ls \<and> list_all is_digit ?ds"
    by (simp add: matches_pattern_def)
  then show "\<exists>ls ds. ref = ls @ ds \<and> ls \<noteq> [] \<and> ds \<noteq> [] \<and> list_all is_AZ ls \<and> list_all is_digit ds"
    by blast
next
  assume "\<exists>ls ds. ref = ls @ ds \<and> ls \<noteq> [] \<and> ds \<noteq> [] \<and> list_all is_AZ ls \<and> list_all is_digit ds"
  then obtain ls ds where ref: "ref = ls @ ds" and ne: "ls \<noteq> []" "ds \<noteq> []"
    and ls: "list_all is_AZ ls" and ds: "list_all is_digit ds" by blast
  obtain d ds' where dd: "ds = d # ds'" using ne(2) by (cases ds) auto
  then have d: "\<not> is_AZ d" using ds by (simp add: is_digit_not_AZ)
  have lsall: "\<forall>x\<in>set ls. is_AZ x" using ls by (simp add: list_all_iff)
  have t: "takeWhile is_AZ ref = ls"
    using lsall d by (simp add: ref dd takeWhile_append2)
  have r: "dropWhile is_AZ ref = ds"
    using lsall d by (simp add: ref dd dropWhile_append2)
  show "matches_pattern ref"
    using ne ds by (simp add: matches_pattern_def t r)
qed

lemma matches_pattern_match:
  assumes "matches_pattern ref"
  shows "re_match_cell_ref ref = Some (takeWhile is_AZ ref, dropWhile is_AZ ref)"
proof -
  from assms have ds: "list_all is_digit (dropWhile is_AZ ref)"
    and ne: "takeWhile is_AZ ref \<noteq> []" "dropWhile is_AZ ref \<noteq> []"
    by (simp_all add: matches_pattern_def)
  have eq: "takeWhile is_digit (dropWhile is_AZ ref) = dropWhile is_AZ ref"
    using ds by (simp add: takeWhile_eq_all_conv list_all_iff)
  show ?thesis
    unfolding re_match_cell_ref_def Let_def eq using ne by simp
qed

lemma coords_of_match:
  assumes "matches_pattern ref" and "\<not> over_limit lim (length (dropWhile is_AZ ref))"
  shows "excel_cell_to_coords lim ref =
           Inr (Some (decimal (dropWhile is_AZ ref) - 1, letters_to_number (takeWhile is_AZ ref) - 1))"
proof -
  from assms(1) have ds: "list_all is_digit (dropWhile is_AZ ref)" "dropWhile is_AZ ref \<noteq> []"
    by (simp_all add: matches_pattern_def)
  show ?thesis
    using assms(2)
    by (simp add: excel_cell_to_coords_def matches_pattern_match [OF assms(1)] int_literal_digits [OF ds])
qed

lemma coords_None_iff: "excel_cell_to_coords lim ref = Inr None \<longleftrightarrow> re_match_cell_ref ref = None"
  by (auto simp: excel_cell_to_coords_def split: option.splits sum.splits)

section \<open>The claims on the address codec\<close>

text \<open>
  C8. For every integer \<open>n\<close> from 1 to 1000, turning \<open>n\<close> into column letters and the
  letters back into a number gives \<open>n\<close>. The letters count from \<open>A = 1\<close> to \<open>Z = 26\<close>, and
  each further letter \<open>c\<close> takes the number \<open>col\<close> to \<open>col * 26 + (c - 'A' + 1)\<close>.
\<close>

theorem column_bijection:
  assumes "1 \<le> n" and "n \<le> 1000"
  shows "letters_to_number (column_index_to_letter n) = n
       \<and> letters_to_number ''A'' = 1 \<and> letters_to_number ''Z'' = 26
       \<and> letters_to_number (ls @ [c]) = letters_to_number ls * 26 + (py_ord c - py_ord CHR ''A'' + 1)"
proof -
  have "letters_to_number (column_index_to_letter n) = n"
    using assms(1) by (intro letters_to_number_column) simp
  moreover have "letters_to_number ''A'' = 1" "letters_to_number ''Z'' = 26"
    by (simp_all add: letters_to_number_def py_ord_def)
  ultimately show ?thesis
    by (simp add: letters_to_number_snoc)
qed

theorem column_bijection_witness:
  "(1::int) \<le> 703 \<and> (703::int) \<le> 1000 \<and> column_index_to_letter 703 = ''AAA''
   \<and> letters_to_number (column_index_to_letter 703) = 703"
proof -
  have "column_index_to_letter 703 = ''AAA''"
    by code_simp
  then show ?thesis
    using column_bijection [of 703] by simp
qed

text \<open>
  C5, as the specification states it: every reference that matches the pattern is
  reproduced by encoding its decoded coordinates. The reference \<open>A01\<close> matches the
  pattern and decodes to row 0, column 0, which encode to \<open>A1\<close>.
\<close>

theorem roundtrip_leading_zero_counterexample:
  "matches_pattern ''A01'' \<and> excel_cell_to_coords 4300 ''A01'' = Inr (Some (0, 0))
   \<and> encode 0 0 = ''A1'' \<and> encode 0 0 \<noteq> ''A01''"
  by code_simp

text \<open>
  C5, amended. For every reference that matches the pattern \<open>[A-Z]+[0-9]+\<close> as a whole
  and whose row number is written without a leading zero (the single digit \<open>0\<close> apart),
  and whose digits the interpreter does not refuse for their number, decoding succeeds
  and encoding the decoded coordinates gives the reference back.
\<close>

theorem encode_decode_roundtrip:
  assumes "matches_pattern ref"
    and "dropWhile is_AZ ref = ''0'' \<or> hd (dropWhile is_AZ ref) \<noteq> CHR ''0''"
    and "\<not> over_limit lim (length (dropWhile is_AZ ref))"
  shows "\<exists>row col. excel_cell_to_coords lim ref = Inr (Some (row, col)) \<and> encode row col = ref"
proof -
  let ?ls = "takeWhile is_AZ ref" and ?ds = "dropWhile is_AZ ref"
  from assms(1) have ds: "list_all is_digit ?ds" "?ds \<noteq> []"
    by (simp_all add: matches_pattern_def)
  have ls: "list_all is_AZ ?ls"
    unfolding list_all_iff by (auto dest: set_takeWhileD)
  have "0 \<le> decimal ?ds"
    using ds(1) by (rule decimal_nonneg)
  then have "py_str (decimal ?ds - 1 + 1) = ?ds"
    using str_nat_decimal [OF ds assms(2)] by (simp add: py_str_def)
  moreover have "column_index_to_letter (letters_to_number ?ls - 1 + 1) = ?ls"
    using column_of_letters [OF ls] by simp
  ultimately have "encode (decimal ?ds - 1) (letters_to_number ?ls - 1) = ref"
    by (simp add: encode_def)
  with coords_of_match [OF assms(1,3)] show ?thesis
    by blast
qed

theorem encode_decode_roundtrip_witness:
  "matches_pattern ''XFD1048576'' \<and> excel_cell_to_coords 4300 ''XFD1048576'' = Inr (Some (1048575, 16383))
   \<and> (\<exists>row col. excel_cell_to_coords 4300 ''XFD1048576'' = Inr (Some (row, col)) \<and> encode row col = ''XFD1048576'')"
proof -
  have m: "matches_pattern ''XFD1048576''"
    by code_simp
  have z: "dropWhile is_AZ ''XFD1048576'' = ''0'' \<or> hd (dropWhile is_AZ ''XFD1048576'') \<noteq> CHR ''0''"
    by code_simp
  have l: "\<not> over_limit 4300 (length (dropWhile is_AZ ''XFD1048576''))"
    by code_simp
  have "excel_cell_to_coords 4300 ''XFD1048576'' = Inr (Some (1048575, 16383))"
    by code_simp
  with m encode_decode_roundtrip [OF m z l] show ?thesis
    by blast
qed

section \<open>Properties of the worksheet decoder\<close>

lemma coords_Some_range:
  assumes "excel_cell_to_coords lim ref = Inr (Some (row_idx, col_idx))"
  shows "- 1 \<le> row_idx \<and> 0 \<le> col_idx"
proof -
  from assms obtain ls ds row_num where m: "re_match_cell_ref ref = Some (ls, ds)"
    and i: "int_literal lim ds = Inr row_num"
    and r: "row_idx = row_num - 1" and c: "col_idx = letters_to_number ls - 1"
    by (auto simp: excel_cell_to_coords_def split: option.splits sum.splits)
  from re_match_Some [OF m] have ls: "list_all is_AZ ls" "ls \<noteq> []"
    and ds: "list_all is_digit ds" "ds \<noteq> []" by simp_all
  have "row_num = decimal ds"
    using i int_literal_digits [OF ds, of lim] by (simp split: if_splits)
  then have "0 \<le> row_num"
    using decimal_nonneg [OF ds(1)] by simp
  moreover have "1 \<le> letters_to_number ls"
    using ls by (rule letters_to_number_pos)
  ultimately show ?thesis
    by (simp add: r c)
qed

text \<open>What one round of the loop does, by cases.\<close>

lemma parse_cell_skip:
  assumes "attr_r cell = Some ref" and "excel_cell_to_coords lim ref = Inr None"
  shows "parse_cell lim shared_strings g cell = Inr g"
  using assms by (simp add: parse_cell_def)

lemma parse_cell_no_ref:
  assumes "attr_r cell = None \<or> attr_r cell = Some []"
  shows "parse_cell lim shared_strings g cell = Inr g"
  using assms by (auto simp: parse_cell_def)

lemma parse_cell_blank:
  assumes "attr_r cell = Some ref" and "excel_cell_to_coords lim ref = Inr (Some (row_idx, col_idx))"
    and "cell_value_of lim shared_strings cell = Inr v" and "strip v = []"
  shows "parse_cell lim shared_strings g cell = Inr g"
  using assms by (auto simp: parse_cell_def)

lemma parse_cell_store:
  assumes "attr_r cell = Some ref" and "excel_cell_to_coords lim ref = Inr (Some (row_idx, col_idx))"
    and "cell_value_of lim shared_strings cell = Inr v" and "strip v \<noteq> []"
  shows "parse_cell lim shared_strings g cell =
           Inr \<lparr>cells = AList.update (row_idx, col_idx) v (cells g),
                max_row = max (max_row g) row_idx, max_col = max (max_col g) col_idx\<rparr>"
proof -
  have "ref \<noteq> []"
    using assms(2) by (auto simp: excel_cell_to_coords_def re_match_cell_ref_def)
  then show ?thesis
    using assms by (simp add: parse_cell_def)
qed

lemma parse_cell_cases:
  assumes "parse_cell lim shared_strings g cell = Inr g'"
  obtains (unchanged) "g' = g"
  | (stored) ref row_idx col_idx v where "attr_r cell = Some ref"
      and "excel_cell_to_coords lim ref = Inr (Some (row_idx, col_idx))"
      and "cell_value_of lim shared_strings cell = Inr v" and "strip v \<noteq> []"
      and "g' = \<lparr>cells = AList.update (row_idx, col_idx) v (cells g),
                 max_row = max (max_row g) row_idx, max_col = max (max_col g) col_idx\<rparr>"
  using assms
  by (auto simp: parse_cell_def split: option.splits if_splits sum.splits)

text \<open>A property that every round keeps holds of the grid that the loops return.\<close>

lemma parse_cells_invariant:
  assumes "parse_cells lim shared_strings g row = Inr g'" and "P g"
    and step: "\<And>g cell g'. P g \<Longrightarrow> parse_cell lim shared_strings g cell = Inr g' \<Longrightarrow> P g'"
  shows "P g'"
  using assms(1,2)
proof (induction row arbitrary: g)
  case Nil
  then show ?case by simp
next
  case (Cons cell rest)
  then obtain g1 where c: "parse_cell lim shared_strings g cell = Inr g1"
    and r: "parse_cells lim shared_strings g1 rest = Inr g'"
    by (auto split: sum.splits)
  from step [OF Cons.prems(2) c] have "P g1" .
  with Cons.IH r show ?case by blast
qed

lemma parse_rows_invariant:
  assumes "parse_rows lim shared_strings g rs = Inr g'" and "P g"
    and step: "\<And>g cell g'. P g \<Longrightarrow> parse_cell lim shared_strings g cell = Inr g' \<Longrightarrow> P g'"
  shows "P g'"
  using assms(1,2)
proof (induction rs arbitrary: g)
  case Nil
  then show ?case by simp
next
  case (Cons row rest)
  then obtain g1 where c: "parse_cells lim shared_strings g row = Inr g1"
    and r: "parse_rows lim shared_strings g1 rest = Inr g'"
    by (auto split: sum.splits)
  have "P g1"
    using c Cons.prems(2) step by (rule parse_cells_invariant)
  with Cons.IH r show ?case by blast
qed

lemma parse_worksheet_invariant:
  assumes "parse_worksheet_xml lim xml_content shared_strings = Inr g" and "P empty_grid"
    and step: "\<And>g cell g'. P g \<Longrightarrow> parse_cell lim shared_strings g cell = Inr g' \<Longrightarrow> P g'"
  shows "P g"
proof (cases xml_content)
  case NotWellFormed
  with assms(1) show ?thesis by (simp add: parse_worksheet_xml_def)
next
  case (Document root)
  with assms(1) have "parse_rows lim shared_strings empty_grid (ws_rows root) = Inr g"
    by (simp add: parse_worksheet_xml_def)
  then show ?thesis
    using assms(2) step by (rule parse_rows_invariant)
qed

text \<open>The two bounds are the largest indices among the keys, and at least 0.\<close>

lemma Max_insert_zero: 
  fixes K :: "int set"
  assumes "finite K"
  shows "Max (insert 0 (insert r K)) = max (Max (insert 0 K)) r"
proof -
  have "Max (insert r (insert 0 K)) = max r (Max (insert 0 K))"
    using assms by (intro Max_insert) auto
  then show ?thesis
    by (simp add: insert_commute max.commute)
qed

lemma parse_cell_bounds:
  assumes "parse_cell lim shared_strings g cell = Inr g'"
    and "max_row g = Max (insert 0 (fst ` fst ` set (cells g))) \<and>
         max_col g = Max (insert 0 (snd ` fst ` set (cells g)))"
  shows "max_row g' = Max (insert 0 (fst ` fst ` set (cells g'))) \<and>
         max_col g' = Max (insert 0 (snd ` fst ` set (cells g')))"
  using assms(1)
proof (cases rule: parse_cell_cases)
  case unchanged
  with assms(2) show ?thesis by simp
next
  case (stored ref row_idx col_idx v)
  have keys: "fst ` set (cells g') = insert (row_idx, col_idx) (fst ` set (cells g))"
    by (simp add: stored(5) AList.dom_update)
  have r: "Max (insert 0 (insert row_idx (fst ` fst ` set (cells g)))) = max (max_row g) row_idx"
    unfolding conjunct1 [OF assms(2)] by (rule Max_insert_zero) simp
  have c: "Max (insert 0 (insert col_idx (snd ` fst ` set (cells g)))) = max (max_col g) col_idx"
    unfolding conjunct2 [OF assms(2)] by (rule Max_insert_zero) simp
  have g': "max_row g' = max (max_row g) row_idx" "max_col g' = max (max_col g) col_idx"
    by (simp_all add: stored(5))
  show ?thesis
    unfolding keys image_insert fst_conv snd_conv r c g' by (rule conjI) (rule refl)+
qed

lemma parse_cell_keys:
  assumes "parse_cell lim shared_strings g cell = Inr g'"
    and "\<forall>k\<in>fst ` set (cells g). - 1 \<le> fst k \<and> 0 \<le> snd k"
  shows "\<forall>k\<in>fst ` set (cells g'). - 1 \<le> fst k \<and> 0 \<le> snd k"
  using assms(1)
proof (cases rule: parse_cell_cases)
  case unchanged
  with assms(2) show ?thesis by simp
next
  case (stored ref row_idx col_idx v)
  have "fst ` set (cells g') = insert (row_idx, col_idx) (fst ` set (cells g))"
    by (simp add: stored(5) AList.dom_update)
  then show ?thesis
    using assms(2) coords_Some_range [OF stored(2)] by simp
qed

lemma set_update_subset: "set (AList.update k v al) \<subseteq> insert (k, v) (set al)"
  by (induction al) auto

lemma parse_cell_values:
  assumes "parse_cell lim shared_strings g cell = Inr g'"
    and "\<forall>v\<in>snd ` set (cells g). strip v \<noteq> []"
  shows "\<forall>v\<in>snd ` set (cells g'). strip v \<noteq> []"
  using assms(1)
proof (cases rule: parse_cell_cases)
  case unchanged
  with assms(2) show ?thesis by simp
next
  case (stored ref row_idx col_idx v)
  have "set (cells g') \<subseteq> insert ((row_idx, col_idx), v) (set (cells g))"
    by (simp add: stored(5) set_update_subset)
  then show ?thesis
    using assms(2) stored(4) by auto
qed

lemma parse_cell_monotone:
  assumes "parse_cell lim shared_strings g cell = Inr g'"
  shows "max_row g \<le> max_row g' \<and> max_col g \<le> max_col g'"
  using assms by (cases rule: parse_cell_cases) simp_all

lemma parse_cell_distinct:
  assumes "parse_cell lim shared_strings g cell = Inr g'" and "distinct (map fst (cells g))"
  shows "distinct (map fst (cells g'))"
  using assms by (cases rule: parse_cell_cases) (simp_all add: AList.distinct_update)

section \<open>Properties of the decoder on all code points\<close>

lemma todecimal_le: "todecimal zeros c = Some d \<Longrightarrow> d \<le> 9"
  by (auto simp: todecimal_def split: if_splits list.splits dest!: filter_eq_ConsD)

lemma todecimal_ascii: "c < 128 \<Longrightarrow> todecimal zeros c = Some d \<Longrightarrow> 48 \<le> c \<and> c \<le> 57 \<and> d = c - 48"
  by (auto simp: todecimal_def split: if_splits)

lemma cp_AZ_not_decimal: "cp_is_AZ c \<Longrightarrow> \<not> cp_is_decimal zeros c"
  by (simp add: cp_is_AZ_def cp_is_decimal_def todecimal_def)

lemma todecimal_not_space:
  assumes "digits_not_space zeros" and "todecimal zeros c = Some d" and "127 \<le> c"
  shows "\<not> cp_isspace c"
proof (cases "c < 128")
  case True
  with assms(3) have "c = 127" by simp
  then show ?thesis by (simp add: cp_isspace_def)
next
  case False
  with assms(2) obtain z zs where f: "filter (\<lambda>z. z \<le> c \<and> c \<le> z + 9) zeros = z # zs"
    by (auto simp: todecimal_def split: if_splits list.splits)
  then have "z \<in> set zeros" and "z \<le> c \<and> c \<le> z + 9"
    by (auto dest!: filter_eq_ConsD)
  then have "list_all (\<lambda>c. \<not> cp_isspace c) [z..<z + 10]" and "c \<in> set [z..<z + 10]"
    using assms(1) by (auto simp: digits_not_space_def list_all_iff)
  then show ?thesis
    by (simp add: list_all_iff)
qed

lemma digit_char_is_digit: "d \<le> 9 \<Longrightarrow> is_digit (digit_char d) \<and> digit_value (digit_char d) = int d"
  by (simp add: is_digit_def digit_value_def digit_char_def py_ord_chr py_ord_consts)

lemma char_of_digit: "48 \<le> c \<Longrightarrow> c \<le> 57 \<Longrightarrow> char_of c = digit_char (c - 48)"
proof -
  assume "48 \<le> c" "c \<le> (57::nat)"
  then have "48 + int (c - 48) = int c" by simp
  then show ?thesis
    by (simp add: digit_char_def py_chr_def py_ord_consts)
qed

text \<open>A run of decimal digits is rewritten digit by digit.\<close>

lemma to_ascii_digits:
  assumes "digits_not_space zeros" and "list_all (cp_is_decimal zeros) ds"
  shows "to_ascii zeros ds = map (\<lambda>c. digit_char (the (todecimal zeros c))) ds"
  using assms(2)
proof (induction ds)
  case Nil
  then show ?case by simp
next
  case (Cons c cs)
  then obtain d where d: "todecimal zeros c = Some d"
    by (auto simp: cp_is_decimal_def)
  show ?case
  proof (cases "c < 127")
    case True
    with d have "48 \<le> c \<and> c \<le> 57 \<and> d = c - 48"
      by (intro todecimal_ascii) simp_all
    then have "char_of c = digit_char d"
      by (simp add: char_of_digit)
    with True d Cons show ?thesis by simp
  next
    case False
    then have "\<not> cp_isspace c"
      using todecimal_not_space [OF assms(1) d] by simp
    with False d Cons show ?thesis by simp
  qed
qed

lemma map_char_of_digits:
  assumes "list_all (cp_is_decimal zeros) ds" and "list_all (\<lambda>c. c < 128) ds"
  shows "map char_of ds = map (\<lambda>c. digit_char (the (todecimal zeros c))) ds"
proof (rule map_cong [OF refl])
  fix c assume "c \<in> set ds"
  with assms obtain d where d: "todecimal zeros c = Some d" and c: "c < 128"
    by (auto simp: cp_is_decimal_def list_all_iff)
  from todecimal_ascii [OF c d] show "char_of c = digit_char (the (todecimal zeros c))"
    by (simp add: d char_of_digit)
qed

lemma decimal_of_digit_chars:
  assumes "list_all (cp_is_decimal zeros) ds"
  shows "decimal (map (\<lambda>c. digit_char (the (todecimal zeros c))) ds) = digits_value zeros ds
       \<and> list_all is_digit (map (\<lambda>c. digit_char (the (todecimal zeros c))) ds)"
  using assms
proof (induction ds rule: rev_induct)
  case Nil
  then show ?case by (simp add: decimal_def digits_value_def)
next
  case (snoc c ds)
  then obtain d where d: "todecimal zeros c = Some d"
    by (auto simp: cp_is_decimal_def)
  note dc = digit_char_is_digit [OF todecimal_le [OF d]]
  have "digits_value zeros (ds @ [c]) = digits_value zeros ds * 10 + int d"
    by (simp add: digits_value_def d)
  with snoc dc show ?case
    by (simp add: decimal_snoc d)
qed

lemma cp_int_literal_digits:
  assumes "list_all (cp_is_decimal zeros) ds" and "ds \<noteq> []"
    and "digits_not_space zeros \<or> list_all (\<lambda>c. c < 128) ds"
  shows "cp_int_literal zeros lim ds =
           (if over_limit lim (length ds) then Inl ValueError else Inr (digits_value zeros ds))"
proof -
  let ?t = "map (\<lambda>c. digit_char (the (todecimal zeros c))) ds"
  have t: "(if list_all (\<lambda>c. c < 128) ds then map char_of ds else to_ascii zeros ds) = ?t"
    using assms(1,3) by (auto simp: map_char_of_digits to_ascii_digits)
  have dig: "list_all is_digit ?t" and ne: "?t \<noteq> []" and v: "decimal ?t = digits_value zeros ds"
    using decimal_of_digit_chars [OF assms(1)] assms(2) by simp_all
  have "int_literal lim ?t = (if over_limit lim (length ?t) then Inl ValueError else Inr (decimal ?t))"
    using dig ne by (rule int_literal_digits)
  then show ?thesis
    unfolding cp_int_literal_def t by (simp add: v)
qed

lemma cp_re_match_prefix:
  assumes "list_all cp_is_AZ ls" and "ls \<noteq> []" and "list_all (cp_is_decimal zeros) ds" and "ds \<noteq> []"
  shows "cp_re_match_cell_ref zeros (ls @ ds @ rest) =
           Some (ls, ds @ takeWhile (cp_is_decimal zeros) rest)"
proof -
  obtain d ds' where ds: "ds = d # ds'" using assms(4) by (cases ds) auto
  then have "cp_is_decimal zeros d" using assms(3) by simp
  then have d: "\<not> cp_is_AZ d" using cp_AZ_not_decimal by blast
  have ls: "\<forall>x\<in>set ls. cp_is_AZ x" using assms(1) by (simp add: list_all_iff)
  have dsall: "\<forall>x\<in>set ds. cp_is_decimal zeros x" using assms(3) by (simp add: list_all_iff)
  have t: "takeWhile cp_is_AZ (ls @ ds @ rest) = ls"
    using ls d by (simp add: ds takeWhile_append2)
  have r: "dropWhile cp_is_AZ (ls @ ds @ rest) = ds @ rest"
    using ls d by (simp add: ds dropWhile_append2)
  have "takeWhile (cp_is_decimal zeros) (ds @ rest) = ds @ takeWhile (cp_is_decimal zeros) rest"
    using dsall by (simp add: takeWhile_append2)
  then show ?thesis
    using assms(2,4) by (simp add: cp_re_match_cell_ref_def t r)
qed

lemma cp_re_match_Some:
  assumes "cp_re_match_cell_ref zeros ref = Some (ls, ds)"
  shows "ls \<noteq> [] \<and> ds \<noteq> [] \<and> list_all cp_is_AZ ls \<and> list_all (cp_is_decimal zeros) ds \<and>
         ref = ls @ ds @ dropWhile (cp_is_decimal zeros) (dropWhile cp_is_AZ ref)"
proof -
  from assms have ls: "ls = takeWhile cp_is_AZ ref"
    and ds: "ds = takeWhile (cp_is_decimal zeros) (dropWhile cp_is_AZ ref)"
    and ne: "ls \<noteq> []" "ds \<noteq> []"
    by (auto simp: cp_re_match_cell_ref_def Let_def split: if_splits)
  have "list_all cp_is_AZ ls"
    unfolding ls list_all_iff by (auto dest: set_takeWhileD)
  moreover have "list_all (cp_is_decimal zeros) ds"
    unfolding ds list_all_iff by (auto dest: set_takeWhileD)
  moreover have "ref = ls @ ds @ dropWhile (cp_is_decimal zeros) (dropWhile cp_is_AZ ref)"
    unfolding ls ds by simp
  ultimately show ?thesis using ne by simp
qed

lemma cp_re_match_None_iff:
  "cp_re_match_cell_ref zeros ref = None \<longleftrightarrow>
     \<not> (\<exists>ls ds rest. ref = ls @ ds @ rest \<and> ls \<noteq> [] \<and> ds \<noteq> [] \<and>
           list_all cp_is_AZ ls \<and> list_all (cp_is_decimal zeros) ds)"
proof
  assume none: "cp_re_match_cell_ref zeros ref = None"
  show "\<not> (\<exists>ls ds rest. ref = ls @ ds @ rest \<and> ls \<noteq> [] \<and> ds \<noteq> [] \<and>
           list_all cp_is_AZ ls \<and> list_all (cp_is_decimal zeros) ds)"
  proof
    assume "\<exists>ls ds rest. ref = ls @ ds @ rest \<and> ls \<noteq> [] \<and> ds \<noteq> [] \<and>
           list_all cp_is_AZ ls \<and> list_all (cp_is_decimal zeros) ds"
    then obtain ls ds rest where "ref = ls @ ds @ rest" "ls \<noteq> []" "ds \<noteq> []"
      "list_all cp_is_AZ ls" "list_all (cp_is_decimal zeros) ds" by blast
    then have "cp_re_match_cell_ref zeros ref = Some (ls, ds @ takeWhile (cp_is_decimal zeros) rest)"
      by (simp add: cp_re_match_prefix)
    with none show False by simp
  qed
next
  assume no: "\<not> (\<exists>ls ds rest. ref = ls @ ds @ rest \<and> ls \<noteq> [] \<and> ds \<noteq> [] \<and>
           list_all cp_is_AZ ls \<and> list_all (cp_is_decimal zeros) ds)"
  show "cp_re_match_cell_ref zeros ref = None"
  proof (cases "cp_re_match_cell_ref zeros ref")
    case None
    then show ?thesis .
  next
    case (Some p)
    obtain ls ds where "p = (ls, ds)" by (cases p)
    with Some cp_re_match_Some [of zeros ref ls ds] no show ?thesis by blast
  qed
qed

lemma cp_coords_None_iff:
  "cp_excel_cell_to_coords zeros lim ref = Inr None \<longleftrightarrow> cp_re_match_cell_ref zeros ref = None"
  by (auto simp: cp_excel_cell_to_coords_def split: option.splits sum.splits)

text \<open>The coordinates of a reference with a matching start, whatever follows the digits.\<close>

lemma cp_coords_of_prefix:
  assumes "list_all cp_is_AZ ls" and "ls \<noteq> []" and "list_all (cp_is_decimal zeros) ds" and "ds \<noteq> []"
    and "rest = [] \<or> \<not> cp_is_decimal zeros (hd rest)"
    and "digits_not_space zeros \<or> list_all (\<lambda>c. c < 128) ds"
  shows "cp_excel_cell_to_coords zeros lim (ls @ ds @ rest) =
           (if over_limit lim (length ds) then Inl ValueError
            else Inr (Some (digits_value zeros ds - 1, cp_letters_to_number ls - 1)))"
proof -
  have "takeWhile (cp_is_decimal zeros) rest = []"
    using assms(5) by (cases rest) auto
  then have "cp_re_match_cell_ref zeros (ls @ ds @ rest) = Some (ls, ds)"
    using cp_re_match_prefix [OF assms(1-4), of rest] by simp
  then show ?thesis
    by (simp add: cp_excel_cell_to_coords_def cp_int_literal_digits [OF assms(3,4,6)])
qed

text \<open>On code points below 256 the two decoders are one.\<close>

lemma of_char_below: "(of_char c :: nat) < 256"
  by simp

lemma cp_is_AZ_of_char: "cp_is_AZ (of_char c) = is_AZ c"
proof -
  have "py_ord c = int (of_char c)"
    by (simp add: py_ord_def of_nat_of_char)
  then show ?thesis
    by (auto simp: cp_is_AZ_def is_AZ_def py_ord_consts)
qed

lemma todecimal_of_char:
  assumes "\<forall>z\<in>set zeros. 256 \<le> z"
  shows "todecimal zeros (of_char c) = (if is_digit c then Some (nat (digit_value c)) else None)"
proof -
  have o: "py_ord c = int (of_char c)"
    by (simp add: py_ord_def of_nat_of_char)
  have "\<not> (z \<le> of_char c \<and> of_char c \<le> z + 9)" if "z \<in> set zeros" for z
  proof -
    from assms that have "256 \<le> z" by blast
    moreover have "(of_char c :: nat) < 256" by (rule of_char_below)
    ultimately show ?thesis by linarith
  qed
  then have "filter (\<lambda>z. z \<le> of_char c \<and> of_char c \<le> z + 9) zeros = []"
    by (simp add: filter_empty_conv)
  then show ?thesis
    using o by (auto simp: todecimal_def is_digit_def digit_value_def py_ord_consts)
qed

lemma cp_is_decimal_ascii_digit: "is_digit c \<Longrightarrow> cp_is_decimal zeros (of_char c)"
proof -
  assume d: "is_digit c"
  have "py_ord c = int (of_char c)"
    by (simp add: py_ord_def of_nat_of_char)
  with d show ?thesis
    by (simp add: cp_is_decimal_def todecimal_def is_digit_def py_ord_consts)
qed

lemma todecimal_ascii_digit: "is_digit c \<Longrightarrow> todecimal zeros (of_char c) = Some (nat (digit_value c))"
proof -
  assume d: "is_digit c"
  have "py_ord c = int (of_char c)"
    by (simp add: py_ord_def of_nat_of_char)
  with d show ?thesis
    by (auto simp: todecimal_def is_digit_def digit_value_def py_ord_consts)
qed

lemma cp_letters_of_chars: "cp_letters_to_number (code_points ls) = letters_to_number ls"
proof (induction ls rule: rev_induct)
  case Nil
  then show ?case
    by (simp add: cp_letters_to_number_def letters_to_number_def code_points_def)
next
  case (snoc c ls)
  have "cp_letters_to_number (code_points (ls @ [c])) =
          cp_letters_to_number (code_points ls) * 26 + (int (of_char c) - 65 + 1)"
    by (simp add: cp_letters_to_number_def code_points_def)
  moreover have "int (of_char c) = py_ord c"
    by (simp add: py_ord_def of_nat_of_char)
  ultimately show ?case
    by (simp add: snoc.IH letters_to_number_snoc py_ord_consts)
qed

lemma digits_value_of_chars:
  assumes "list_all is_digit ds"
  shows "digits_value zeros (code_points ds) = decimal ds"
  using assms
proof (induction ds rule: rev_induct)
  case Nil
  then show ?case by (simp add: digits_value_def decimal_def code_points_def)
next
  case (snoc c ds)
  then have c: "is_digit c" and ih: "digits_value zeros (code_points ds) = decimal ds"
    by simp_all
  have "digits_value zeros (code_points (ds @ [c])) =
          digits_value zeros (code_points ds) * 10 + int (nat (digit_value c))"
    by (simp add: digits_value_def code_points_def todecimal_ascii_digit [OF c])
  then show ?case
    using digit_value_range [OF c] by (simp add: ih decimal_snoc)
qed

lemma ascii_digit_below: "is_digit c \<Longrightarrow> (of_char c :: nat) < 128"
proof -
  assume d: "is_digit c"
  have "py_ord c = int (of_char c)"
    by (simp add: py_ord_def of_nat_of_char)
  with d show ?thesis
    by (simp add: is_digit_def py_ord_consts)
qed

lemma cp_int_literal_of_digits:
  assumes "list_all is_digit ds"
  shows "cp_int_literal zeros lim (code_points ds) = int_literal lim ds"
proof -
  have "list_all (\<lambda>c. c < 128) (code_points ds)"
    using assms by (auto simp: code_points_def list_all_iff ascii_digit_below)
  moreover have "map char_of (code_points ds) = ds"
    by (simp add: code_points_def comp_def)
  ultimately show ?thesis
    by (simp add: cp_int_literal_def)
qed

lemma cp_re_match_of_chars:
  assumes "\<forall>z\<in>set zeros. 256 \<le> z"
  shows "cp_re_match_cell_ref zeros (code_points r) =
           map_option (\<lambda>(ls, ds). (code_points ls, code_points ds)) (re_match_cell_ref r)"
proof -
  have az: "cp_is_AZ \<circ> of_char = is_AZ"
    by (simp add: fun_eq_iff cp_is_AZ_of_char)
  have dg: "cp_is_decimal zeros \<circ> of_char = is_digit"
    by (simp add: fun_eq_iff cp_is_decimal_def todecimal_of_char [OF assms])
  have t: "takeWhile cp_is_AZ (code_points r) = code_points (takeWhile is_AZ r)"
    by (simp add: code_points_def takeWhile_map az)
  have d: "dropWhile cp_is_AZ (code_points r) = code_points (dropWhile is_AZ r)"
    by (simp add: code_points_def dropWhile_map az)
  have ds: "takeWhile (cp_is_decimal zeros) (code_points (dropWhile is_AZ r)) =
              code_points (takeWhile is_digit (dropWhile is_AZ r))"
    by (simp add: code_points_def takeWhile_map dg)
  show ?thesis
    unfolding cp_re_match_cell_ref_def re_match_cell_ref_def Let_def t d ds
    by (simp add: code_points_def)
qed

lemma cp_coords_of_chars:
  assumes "\<forall>z\<in>set zeros. 256 \<le> z"
  shows "cp_excel_cell_to_coords zeros lim (code_points r) = excel_cell_to_coords lim r"
proof (cases "re_match_cell_ref r")
  case None
  then show ?thesis
    by (simp add: cp_excel_cell_to_coords_def excel_cell_to_coords_def cp_re_match_of_chars [OF assms])
next
  case (Some p)
  obtain ls ds where p: "p = (ls, ds)" by (cases p)
  with Some have m: "re_match_cell_ref r = Some (ls, ds)" by simp
  then have "list_all is_digit ds"
    using re_match_Some by blast
  then have "cp_int_literal zeros lim (code_points ds) = int_literal lim ds"
    by (rule cp_int_literal_of_digits)
  then show ?thesis
    by (simp add: cp_excel_cell_to_coords_def excel_cell_to_coords_def
        cp_re_match_of_chars [OF assms] m cp_letters_of_chars split: sum.splits)
qed

lemma cp_coords_of_pattern:
  assumes "matches_pattern r"
  shows "cp_excel_cell_to_coords zeros lim (code_points r) =
           (if over_limit lim (length (dropWhile is_AZ r)) then Inl ValueError
            else Inr (Some (decimal (dropWhile is_AZ r) - 1, letters_to_number (takeWhile is_AZ r) - 1)))"
proof -
  let ?ls = "takeWhile is_AZ r" and ?ds = "dropWhile is_AZ r"
  from assms have ds: "list_all is_digit ?ds" and ne: "?ls \<noteq> []" "?ds \<noteq> []"
    by (simp_all add: matches_pattern_def)
  have ls: "list_all is_AZ ?ls"
    unfolding list_all_iff by (auto dest: set_takeWhileD)
  have 1: "list_all cp_is_AZ (code_points ?ls)"
    using ls by (simp add: code_points_def list_all_iff cp_is_AZ_of_char)
  have 2: "code_points ?ls \<noteq> []" "code_points ?ds \<noteq> []"
    using ne by (simp_all add: code_points_def)
  have 3: "list_all (cp_is_decimal zeros) (code_points ?ds)"
    using ds by (simp add: code_points_def list_all_iff cp_is_decimal_ascii_digit)
  have 4: "digits_not_space zeros \<or> list_all (\<lambda>c. c < 128) (code_points ?ds)"
    using ds by (auto simp: code_points_def list_all_iff ascii_digit_below)
  have r: "code_points r = code_points ?ls @ code_points ?ds @ []"
    by (simp add: code_points_def flip: map_append)
  have "cp_excel_cell_to_coords zeros lim (code_points ?ls @ code_points ?ds @ []) =
          (if over_limit lim (length (code_points ?ds)) then Inl ValueError
           else Inr (Some (digits_value zeros (code_points ?ds) - 1,
                           cp_letters_to_number (code_points ?ls) - 1)))"
    using 1 2(1) 3 2(2) _ 4 by (rule cp_coords_of_prefix) simp
  moreover have "length (code_points ?ds) = length ?ds"
    by (simp add: code_points_def)
  ultimately show ?thesis
    unfolding r [symmetric] digits_value_of_chars [OF ds] cp_letters_of_chars by simp
qed

section \<open>The claim on decoding failures\<close>

text \<open>
  C6, as the specification states it: decoding fails exactly when the reference does
  not match the pattern. The reference \<open>A1B\<close> does not match the pattern, and it is
  decoded to row 0, column 0: the program matches the pattern at the start of the string
  and ignores what follows.
\<close>

theorem decode_trailing_text_counterexample:
  "\<not> matches_pattern ''A1B'' \<and> excel_cell_to_coords 4300 ''A1B'' = Inr (Some (0, 0))
   \<and> cp_excel_cell_to_coords [] 4300 (code_points ''A1B'') = Inr (Some (0, 0))"
  by code_simp

text \<open>
  C6, amended. Address decoding returns no coordinates exactly when the reference does
  not start with one or more letters \<open>A-Z\<close> followed by one or more decimal digits, where
  a decimal digit is any character that \<open>\d\<close> matches: \<open>0-9\<close> or a decimal digit of
  another script. What comes after the digits is ignored: a reference that starts with
  letters and then the longest run of digits is decoded to the coordinates that these
  letters and digits stand for, whatever follows, unless the interpreter refuses the
  digits for their number, which raises \<open>ValueError\<close>. So every reference that matches
  the pattern \<open>[A-Z]+[0-9]+\<close> as a whole is decoded, within that limit. The references
  \<open>1A\<close>, \<open>A\<close>, \<open>12\<close> and the empty string give no coordinates. On references of code
  points below 256 the decoder is the one that the worksheet decoder above uses, and
  there a cell whose reference gives no coordinates leaves the grid as it is and does
  not stop the decoding.
\<close>

theorem decode_fails_iff_no_prefix:
  "(cp_excel_cell_to_coords zeros lim ref = Inr None \<longleftrightarrow>
      \<not> (\<exists>ls ds rest. ref = ls @ ds @ rest \<and> ls \<noteq> [] \<and> ds \<noteq> [] \<and>
            list_all cp_is_AZ ls \<and> list_all (cp_is_decimal zeros) ds))
   \<and> (list_all cp_is_AZ ls \<and> ls \<noteq> [] \<and> list_all (cp_is_decimal zeros) ds \<and> ds \<noteq> [] \<and>
        (rest = [] \<or> \<not> cp_is_decimal zeros (hd rest)) \<and> digits_not_space zeros \<longrightarrow>
        cp_excel_cell_to_coords zeros lim (ls @ ds @ rest) =
          (if over_limit lim (length ds) then Inl ValueError
           else Inr (Some (digits_value zeros ds - 1, cp_letters_to_number ls - 1))))
   \<and> (matches_pattern r \<and> \<not> over_limit lim (length (dropWhile is_AZ r)) \<longrightarrow>
        cp_excel_cell_to_coords zeros lim (code_points r) =
          Inr (Some (decimal (dropWhile is_AZ r) - 1, letters_to_number (takeWhile is_AZ r) - 1)))
   \<and> cp_excel_cell_to_coords zeros lim (code_points ''1A'') = Inr None
   \<and> cp_excel_cell_to_coords zeros lim (code_points ''A'') = Inr None
   \<and> cp_excel_cell_to_coords zeros lim (code_points ''12'') = Inr None
   \<and> cp_excel_cell_to_coords zeros lim (code_points []) = Inr None
   \<and> ((\<forall>z\<in>set zeros. 256 \<le> z) \<longrightarrow>
        excel_cell_to_coords lim r = cp_excel_cell_to_coords zeros lim (code_points r))
   \<and> (attr_r cell = Some r \<and> excel_cell_to_coords lim r = Inr None \<longrightarrow>
        parse_cell lim shared_strings g cell = Inr g)"
proof -
  have iff: "cp_excel_cell_to_coords zeros lim ref = Inr None \<longleftrightarrow>
      \<not> (\<exists>ls ds rest. ref = ls @ ds @ rest \<and> ls \<noteq> [] \<and> ds \<noteq> [] \<and>
            list_all cp_is_AZ ls \<and> list_all (cp_is_decimal zeros) ds)"
    by (simp only: cp_coords_None_iff cp_re_match_None_iff)
  have tail: "cp_excel_cell_to_coords zeros lim (ls @ ds @ rest) =
          (if over_limit lim (length ds) then Inl ValueError
           else Inr (Some (digits_value zeros ds - 1, cp_letters_to_number ls - 1)))"
    if "list_all cp_is_AZ ls \<and> ls \<noteq> [] \<and> list_all (cp_is_decimal zeros) ds \<and> ds \<noteq> [] \<and>
        (rest = [] \<or> \<not> cp_is_decimal zeros (hd rest)) \<and> digits_not_space zeros"
    using that by (intro cp_coords_of_prefix) simp_all
  have whole: "cp_excel_cell_to_coords zeros lim (code_points r) =
          Inr (Some (decimal (dropWhile is_AZ r) - 1, letters_to_number (takeWhile is_AZ r) - 1))"
    if "matches_pattern r \<and> \<not> over_limit lim (length (dropWhile is_AZ r))"
    using that cp_coords_of_pattern [of r zeros lim] by simp
  have "cp_re_match_cell_ref zeros (code_points ''1A'') = None"
    "cp_re_match_cell_ref zeros (code_points ''A'') = None"
    "cp_re_match_cell_ref zeros (code_points ''12'') = None"
    "cp_re_match_cell_ref zeros (code_points []) = None"
    by (simp_all add: cp_re_match_cell_ref_def code_points_def cp_is_AZ_def)
  then have four: "cp_excel_cell_to_coords zeros lim (code_points ''1A'') = Inr None"
    "cp_excel_cell_to_coords zeros lim (code_points ''A'') = Inr None"
    "cp_excel_cell_to_coords zeros lim (code_points ''12'') = Inr None"
    "cp_excel_cell_to_coords zeros lim (code_points []) = Inr None"
    by (simp_all add: cp_coords_None_iff)
  have same: "excel_cell_to_coords lim r = cp_excel_cell_to_coords zeros lim (code_points r)"
    if "\<forall>z\<in>set zeros. 256 \<le> z"
    using cp_coords_of_chars [OF that, of lim r] by simp
  have skip: "parse_cell lim shared_strings g cell = Inr g"
    if "attr_r cell = Some r \<and> excel_cell_to_coords lim r = Inr None"
    using that by (intro parse_cell_skip [of cell r]) simp_all
  show ?thesis
  proof (intro conjI impI)
    show "cp_excel_cell_to_coords zeros lim ref = Inr None \<longleftrightarrow>
      \<not> (\<exists>ls ds rest. ref = ls @ ds @ rest \<and> ls \<noteq> [] \<and> ds \<noteq> [] \<and>
            list_all cp_is_AZ ls \<and> list_all (cp_is_decimal zeros) ds)"
      by (rule iff)
  qed (erule tail, erule whole, (rule four)+, erule same, erule skip)
qed

theorem decode_fails_iff_no_prefix_witness:
  "digits_not_space [1632, 1776]
   \<and> cp_excel_cell_to_coords [1632, 1776] 4300 ([65] @ [1633, 1778] @ [66, 55]) = Inr (Some (11, 0))
   \<and> cp_excel_cell_to_coords [1632, 1776] 4300 ([65] @ [1633, 1778] @ []) = Inr (Some (11, 0))
   \<and> matches_pattern ''B7''
   \<and> cp_excel_cell_to_coords [1632, 1776] 4300 (code_points ''B7'') = Inr (Some (6, 1))
   \<and> excel_cell_to_coords 4300 ''C7B'' = cp_excel_cell_to_coords [1632, 1776] 4300 (code_points ''C7B'')
   \<and> excel_cell_to_coords 4300 ''C7B'' = Inr (Some (6, 2))
   \<and> excel_cell_to_coords 4300 ''7B'' = Inr None
   \<and> parse_cell 4300 [] empty_grid \<lparr>attr_r = Some ''7B'', attr_t = None, value_elem = Some (Some ''x'')\<rparr>
       = Inr empty_grid"
proof -
  let ?cell = "\<lparr>attr_r = Some ''7B'', attr_t = None, value_elem = Some (Some ''x'')\<rparr>"
  have db: "digits_not_space [1632, 1776]" "\<forall>z\<in>set [1632, 1776 :: nat]. 256 \<le> z"
    by (simp_all add: digits_not_space_def cp_isspace_def)
  have pre: "list_all cp_is_AZ [65]" "[65::nat] \<noteq> []"
    "list_all (cp_is_decimal [1632, 1776]) [1633, 1778]" "[1633, 1778 :: nat] \<noteq> []"
    "\<not> cp_is_decimal [1632, 1776] (hd [66, 55])"
    by code_simp+
  have val: "\<not> over_limit 4300 (length [1633, 1778 :: nat])"
    "digits_value [1632, 1776] [1633, 1778] - 1 = 11" "cp_letters_to_number [65] - 1 = 0"
    by code_simp+
  have m: "matches_pattern ''B7''" "\<not> over_limit 4300 (length (dropWhile is_AZ ''B7''))"
    by code_simp+
  have v: "decimal (dropWhile is_AZ ''B7'') - 1 = 6" "letters_to_number (takeWhile is_AZ ''B7'') - 1 = 1"
    by code_simp+
  have n: "attr_r ?cell = Some ''7B''" "excel_cell_to_coords 4300 ''7B'' = Inr None"
    "excel_cell_to_coords 4300 ''C7B'' = Inr (Some (6, 2))"
    by simp code_simp+
  note a = decode_fails_iff_no_prefix [of "[1632, 1776]" 4300 _ "[65]" "[1633, 1778]" "[66, 55]" "''B7''" ?cell]
  note b = decode_fails_iff_no_prefix [of "[1632, 1776]" 4300 _ "[65]" "[1633, 1778]" "[]" "''C7B''" ?cell]
  note c = decode_fails_iff_no_prefix [of "[1632, 1776]" 4300 _ "[65]" "[1633, 1778]" "[]" "''7B''" ?cell "[]" empty_grid]
  note a_tail = a [THEN conjunct2, THEN conjunct1, rule_format]
  note b_tail = b [THEN conjunct2, THEN conjunct1, rule_format]
  note a_whole = a [THEN conjunct2, THEN conjunct2, THEN conjunct1, rule_format]
  note b_same = b [THEN conjunct2, THEN conjunct2, THEN conjunct2, THEN conjunct2, THEN conjunct2,
      THEN conjunct2, THEN conjunct2, THEN conjunct1, THEN mp]
  note c_skip = c [THEN conjunct2, THEN conjunct2, THEN conjunct2, THEN conjunct2, THEN conjunct2,
      THEN conjunct2, THEN conjunct2, THEN conjunct2, rule_format]
  have "cp_excel_cell_to_coords [1632, 1776] 4300 ([65] @ [1633, 1778] @ [66, 55]) =
          (if over_limit 4300 (length [1633, 1778 :: nat]) then Inl ValueError
           else Inr (Some (digits_value [1632, 1776] [1633, 1778] - 1, cp_letters_to_number [65] - 1)))"
    using pre db(1) by (intro a_tail conjI disjI2)
  then have 1: "cp_excel_cell_to_coords [1632, 1776] 4300 ([65] @ [1633, 1778] @ [66, 55]) = Inr (Some (11, 0))"
    by (simp only: val if_False)
  have "cp_excel_cell_to_coords [1632, 1776] 4300 ([65] @ [1633, 1778] @ []) =
          (if over_limit 4300 (length [1633, 1778 :: nat]) then Inl ValueError
           else Inr (Some (digits_value [1632, 1776] [1633, 1778] - 1, cp_letters_to_number [65] - 1)))"
    using pre(1-4) db(1) by (intro b_tail conjI disjI1 refl)
  then have 2: "cp_excel_cell_to_coords [1632, 1776] 4300 ([65] @ [1633, 1778] @ []) = Inr (Some (11, 0))"
    by (simp only: val if_False)
  have "cp_excel_cell_to_coords [1632, 1776] 4300 (code_points ''B7'') =
          Inr (Some (decimal (dropWhile is_AZ ''B7'') - 1, letters_to_number (takeWhile is_AZ ''B7'') - 1))"
    using m by (intro a_whole conjI)
  then have 3: "cp_excel_cell_to_coords [1632, 1776] 4300 (code_points ''B7'') = Inr (Some (6, 1))"
    by (simp only: v)
  have 4: "excel_cell_to_coords 4300 ''C7B'' = cp_excel_cell_to_coords [1632, 1776] 4300 (code_points ''C7B'')"
    using db(2) by (rule b_same)
  have 5: "parse_cell 4300 [] empty_grid ?cell = Inr empty_grid"
    using n(1,2) by (intro c_skip conjI)
  show ?thesis
    using db(1) 1 2 m(1) 3 4 n(3) n(2) 5 by (intro conjI)
qed

section \<open>The claims on the grid and its bounds\<close>

lemma Max_insert_zero_nonneg:
  fixes K :: "int set"
  assumes "finite K" and "\<exists>k\<in>K. 0 \<le> k"
  shows "Max (insert 0 K) = Max K"
proof -
  from assms(2) obtain k where k: "k \<in> K" "0 \<le> k" by blast
  then have ne: "K \<noteq> {}" by auto
  have "k \<le> Max K"
    using assms(1) k(1) by simp
  with k(2) have "0 \<le> Max K" by simp
  moreover have "Max (insert 0 K) = max 0 (Max K)"
    using assms(1) ne by (rule Max_insert)
  ultimately show ?thesis by simp
qed

text \<open>
  C1, as the specification states it: the bounds equal the largest row and column index
  among the retained cells. A cell with the reference \<open>A0\<close> is decoded to row \<open>-1\<close> and
  retained; where it is the only one, \<open>max_row\<close> is 0 and the largest row index is \<open>-1\<close>.
\<close>

theorem bounds_row_zero_counterexample:
  "parse_worksheet_xml 4300
     (Document \<lparr>ws_dimension = None,
                ws_rows = [[\<lparr>attr_r = Some ''A0'', attr_t = None, value_elem = Some (Some ''x'')\<rparr>]]\<rparr>) []
     = Inr \<lparr>cells = [((- 1, 0), ''x'')], max_row = 0, max_col = 0\<rparr>
   \<and> Max (fst ` fst ` set [((- 1, 0), ''x'')]) = (- 1 :: int)"
proof -
  have "parse_worksheet_xml 4300
     (Document \<lparr>ws_dimension = None,
                ws_rows = [[\<lparr>attr_r = Some ''A0'', attr_t = None, value_elem = Some (Some ''x'')\<rparr>]]\<rparr>) []
     = Inr \<lparr>cells = [((- 1, 0), ''x'')], max_row = 0, max_col = 0\<rparr>"
    by code_simp
  then show ?thesis by simp
qed

text \<open>
  C1, amended. For every worksheet that is decoded, \<open>max_col\<close> is the largest column
  index among the retained cells of the grid, and \<open>max_row\<close> is the largest row index
  among them or 0, whichever is greater: it is the largest row index as soon as one
  retained cell has a row index that is not negative. Both are 0 when no cell is
  retained. The declared dimension has no influence on the result. A round of the loop
  never lowers a bound, and a cell whose value is blank leaves the grid and the bounds
  as they are, whatever its address.
\<close>

theorem bounds_from_retained_cells:
  assumes "parse_worksheet_xml lim (Document ws) shared_strings = Inr g"
  shows "max_row g = Max (insert 0 (fst ` fst ` set (cells g)))
       \<and> max_col g = Max (insert 0 (snd ` fst ` set (cells g)))
       \<and> ((\<exists>k\<in>fst ` set (cells g). 0 \<le> fst k) \<longrightarrow> max_row g = Max (fst ` fst ` set (cells g)))
       \<and> (cells g \<noteq> [] \<longrightarrow> max_col g = Max (snd ` fst ` set (cells g)))
       \<and> (cells g = [] \<longrightarrow> max_row g = 0 \<and> max_col g = 0)
       \<and> parse_worksheet_xml lim (Document (ws\<lparr>ws_dimension := d\<rparr>)) shared_strings = Inr g
       \<and> (parse_cell lim shared_strings g0 cell = Inr g1 \<longrightarrow>
            max_row g0 \<le> max_row g1 \<and> max_col g0 \<le> max_col g1)
       \<and> (cell_value_of lim shared_strings cell = Inr v \<and> strip v = [] \<and>
            parse_cell lim shared_strings g0 cell = Inr g1 \<longrightarrow> g1 = g0)"
proof -
  let ?rows = "fst ` fst ` set (cells g)" and ?cols = "snd ` fst ` set (cells g)"
  have b: "max_row g = Max (insert 0 ?rows) \<and> max_col g = Max (insert 0 ?cols)"
    using assms
  proof (rule parse_worksheet_invariant)
    show "max_row empty_grid = Max (insert 0 (fst ` fst ` set (cells empty_grid))) \<and>
          max_col empty_grid = Max (insert 0 (snd ` fst ` set (cells empty_grid)))"
      by (simp add: empty_grid_def)
  qed (rule parse_cell_bounds)
  have k: "\<forall>k\<in>fst ` set (cells g). - 1 \<le> fst k \<and> 0 \<le> snd k"
    using assms
  proof (rule parse_worksheet_invariant)
    show "\<forall>k\<in>fst ` set (cells empty_grid). - 1 \<le> fst k \<and> 0 \<le> snd k"
      by (simp add: empty_grid_def)
  qed (rule parse_cell_keys)
  have rows: "max_row g = Max ?rows" if "\<exists>k\<in>fst ` set (cells g). 0 \<le> fst k"
  proof -
    from that have "\<exists>r\<in>?rows. 0 \<le> r" by blast
    then have "Max (insert 0 ?rows) = Max ?rows"
      by (intro Max_insert_zero_nonneg) simp_all
    with b show ?thesis by simp
  qed
  have cols: "max_col g = Max ?cols" if "cells g \<noteq> []"
  proof -
    from that obtain p where "p \<in> set (cells g)"
      by (cases "cells g") auto
    then have "snd (fst p) \<in> ?cols" "0 \<le> snd (fst p)"
      using k by auto
    then have "\<exists>c\<in>?cols. 0 \<le> c" by blast
    then have "Max (insert 0 ?cols) = Max ?cols"
      by (intro Max_insert_zero_nonneg) simp_all
    with b show ?thesis by simp
  qed
  have none: "max_row g = 0 \<and> max_col g = 0" if "cells g = []"
    using b that by simp
  have dim: "parse_worksheet_xml lim (Document (ws\<lparr>ws_dimension := d\<rparr>)) shared_strings = Inr g"
    using assms by (simp add: parse_worksheet_xml_def)
  have blank: "g1 = g0" if "cell_value_of lim shared_strings cell = Inr v" and "strip v = []"
    and "parse_cell lim shared_strings g0 cell = Inr g1"
    using that(3) that(1,2) by (cases rule: parse_cell_cases) simp_all
  show ?thesis
    using b rows cols none dim blank parse_cell_monotone [of lim shared_strings g0 cell g1]
    by blast
qed

theorem bounds_from_retained_cells_witness:
  "parse_worksheet_xml 4300
     (Document \<lparr>ws_dimension = Some ''A1:XFD1048576'',
        ws_rows =
          [[\<lparr>attr_r = Some ''A1'', attr_t = None, value_elem = Some (Some ''Name'')\<rparr>,
            \<lparr>attr_r = Some ''B1'', attr_t = None, value_elem = Some (Some ''Age'')\<rparr>],
           [\<lparr>attr_r = Some ''A2'', attr_t = None, value_elem = Some (Some ''Alice'')\<rparr>,
            \<lparr>attr_r = Some ''B2'', attr_t = None, value_elem = Some (Some ''30'')\<rparr>],
           [\<lparr>attr_r = Some ''XFD1048576'', attr_t = None, value_elem = Some (Some '' '')\<rparr>]]\<rparr>) []
     = Inr \<lparr>cells = [((0, 0), ''Name''), ((0, 1), ''Age''), ((1, 0), ''Alice''), ((1, 1), ''30'')],
            max_row = 1, max_col = 1\<rparr>
   \<and> Max (fst ` fst ` set [((0, 0), ''Name''), ((0, 1), ''Age''), ((1, 0), ''Alice''), ((1::int, 1::int), ''30'')]) = 1
   \<and> Max (snd ` fst ` set [((0, 0), ''Name''), ((0, 1), ''Age''), ((1, 0), ''Alice''), ((1::int, 1::int), ''30'')]) = 1"
proof -
  let ?ws = "\<lparr>ws_dimension = Some ''A1:XFD1048576'',
        ws_rows =
          [[\<lparr>attr_r = Some ''A1'', attr_t = None, value_elem = Some (Some ''Name'')\<rparr>,
            \<lparr>attr_r = Some ''B1'', attr_t = None, value_elem = Some (Some ''Age'')\<rparr>],
           [\<lparr>attr_r = Some ''A2'', attr_t = None, value_elem = Some (Some ''Alice'')\<rparr>,
            \<lparr>attr_r = Some ''B2'', attr_t = None, value_elem = Some (Some ''30'')\<rparr>],
           [\<lparr>attr_r = Some ''XFD1048576'', attr_t = None, value_elem = Some (Some '' '')\<rparr>]]\<rparr>"
  let ?g = "\<lparr>cells = [((0, 0), ''Name''), ((0, 1), ''Age''), ((1, 0), ''Alice''), ((1, 1), ''30'')],
            max_row = 1, max_col = 1\<rparr>"
  have run: "parse_worksheet_xml 4300 (Document ?ws) [] = Inr ?g"
    by code_simp
  have "cells ?g \<noteq> []" "\<exists>k\<in>fst ` set (cells ?g). 0 \<le> fst k"
    by simp_all
  with bounds_from_retained_cells [OF run]
  have "max_row ?g = Max (fst ` fst ` set (cells ?g))" "max_col ?g = Max (snd ` fst ` set (cells ?g))"
    by blast+
  with run show ?thesis
    by simp
qed

section \<open>The claims on the value of a cell\<close>

text \<open>
  C2. The specification has a cell of shared-string type with value \<open>99999\<close>, against a
  table of 3 entries, resolve to the text \<open>99999\<close>. In the program the index passes
  \<open>int\<close>, fails the test \<open>string_index < len(shared_strings)\<close>, and \<open>cell_value\<close> keeps
  its initial empty string: the cell is dropped as blank. The handler that would put the
  raw text is reached only by an exception; it is reached for the index \<open>-4\<close> and for
  the text \<open>x\<close>. An empty value element makes \<open>int\<close> raise \<open>TypeError\<close>, which the
  handler does not catch, and the decoding of the worksheet fails.
\<close>

theorem shared_string_index_too_large:
  "cell_value_of 4300 [''a'', ''b'', ''c'']
     \<lparr>attr_r = Some ''A1'', attr_t = Some ''s'', value_elem = Some (Some ''99999'')\<rparr> = Inr []
   \<and> parse_worksheet_xml 4300
       (Document \<lparr>ws_dimension = None,
          ws_rows = [[\<lparr>attr_r = Some ''A1'', attr_t = Some ''s'', value_elem = Some (Some ''99999'')\<rparr>]]\<rparr>)
       [''a'', ''b'', ''c''] = Inr \<lparr>cells = [], max_row = 0, max_col = 0\<rparr>
   \<and> cell_value_of 4300 [''a'', ''b'', ''c'']
       \<lparr>attr_r = Some ''A1'', attr_t = Some ''s'', value_elem = Some (Some ''-4'')\<rparr> = Inr ''-4''
   \<and> cell_value_of 4300 [''a'', ''b'', ''c'']
       \<lparr>attr_r = Some ''A1'', attr_t = Some ''s'', value_elem = Some (Some ''x'')\<rparr> = Inr ''x''
   \<and> parse_worksheet_xml 4300
       (Document \<lparr>ws_dimension = None,
          ws_rows = [[\<lparr>attr_r = Some ''A1'', attr_t = Some ''s'', value_elem = Some None\<rparr>]]\<rparr>)
       [''a'', ''b'', ''c''] = Inl TypeError"
  by code_simp

text \<open>
  C3, as the specification states it: the value stored in the grid is the trimmed
  value. A cell \<open>A1\<close> with the inline value \<open>x\<close> between two spaces is stored with its
  spaces; the stored value differs from its own trim.
\<close>

theorem stored_value_keeps_spaces_counterexample:
  "parse_worksheet_xml 4300
     (Document \<lparr>ws_dimension = None,
        ws_rows = [[\<lparr>attr_r = Some ''A1'', attr_t = None, value_elem = Some (Some '' x '')\<rparr>]]\<rparr>) []
     = Inr \<lparr>cells = [((0, 0), '' x '')], max_row = 0, max_col = 0\<rparr>
   \<and> strip '' x '' = ''x'' \<and> strip '' x '' \<noteq> '' x ''"
  by code_simp

text \<open>
  C3, amended. The resolved value of a cell is trimmed only to test whether it is blank.
  If the trimmed value is empty the cell is discarded: nothing is inserted and the bounds
  stay. Otherwise the entry inserted at the address of the cell is the resolved value as
  it is, not trimmed, and the bounds are extended to the address. Every value stored in
  the grid of a decoded worksheet has a non-empty trim.
\<close>

theorem stored_value_as_resolved:
  assumes "attr_r cell = Some ref"
    and "excel_cell_to_coords lim ref = Inr (Some (row_idx, col_idx))"
    and "cell_value_of lim shared_strings cell = Inr v"
  shows "(strip v = [] \<longrightarrow> parse_cell lim shared_strings g cell = Inr g)
       \<and> (strip v \<noteq> [] \<longrightarrow>
            (\<exists>g'. parse_cell lim shared_strings g cell = Inr g'
               \<and> map_of (cells g') (row_idx, col_idx) = Some v
               \<and> (\<forall>k. k \<noteq> (row_idx, col_idx) \<longrightarrow> map_of (cells g') k = map_of (cells g) k)
               \<and> max_row g' = max (max_row g) row_idx \<and> max_col g' = max (max_col g) col_idx))
       \<and> (parse_worksheet_xml lim xml_content shared_strings = Inr g_end \<longrightarrow>
            (\<forall>v'\<in>snd ` set (cells g_end). strip v' \<noteq> []))"
proof -
  have blank: "parse_cell lim shared_strings g cell = Inr g" if "strip v = []"
    using assms that by (rule parse_cell_blank)
  have store: "\<exists>g'. parse_cell lim shared_strings g cell = Inr g'
               \<and> map_of (cells g') (row_idx, col_idx) = Some v
               \<and> (\<forall>k. k \<noteq> (row_idx, col_idx) \<longrightarrow> map_of (cells g') k = map_of (cells g) k)
               \<and> max_row g' = max (max_row g) row_idx \<and> max_col g' = max (max_col g) col_idx"
    if "strip v \<noteq> []"
    using parse_cell_store [OF assms that, of g] by (simp add: AList.update_conv')
  have all: "\<forall>v'\<in>snd ` set (cells g_end). strip v' \<noteq> []"
    if "parse_worksheet_xml lim xml_content shared_strings = Inr g_end"
    using that
  proof (rule parse_worksheet_invariant)
    show "\<forall>v'\<in>snd ` set (cells empty_grid). strip v' \<noteq> []"
      by (simp add: empty_grid_def)
  qed (rule parse_cell_values)
  show ?thesis
    using blank store all by blast
qed

theorem stored_value_as_resolved_witness:
  "excel_cell_to_coords 4300 ''B2'' = Inr (Some (1, 1))
   \<and> cell_value_of 4300 [] \<lparr>attr_r = Some ''B2'', attr_t = None, value_elem = Some (Some '' x '')\<rparr> = Inr '' x ''
   \<and> strip '' x '' \<noteq> []
   \<and> (\<exists>g'. parse_cell 4300 [] empty_grid \<lparr>attr_r = Some ''B2'', attr_t = None, value_elem = Some (Some '' x '')\<rparr> = Inr g'
         \<and> map_of (cells g') (1, 1) = Some '' x '')
   \<and> excel_cell_to_coords 4300 ''C3'' = Inr (Some (2, 2))
   \<and> cell_value_of 4300 [] \<lparr>attr_r = Some ''C3'', attr_t = None, value_elem = Some (Some ''  '')\<rparr> = Inr ''  ''
   \<and> strip ''  '' = []
   \<and> parse_cell 4300 [] empty_grid \<lparr>attr_r = Some ''C3'', attr_t = None, value_elem = Some (Some ''  '')\<rparr> = Inr empty_grid
   \<and> parse_worksheet_xml 4300
       (Document \<lparr>ws_dimension = None,
          ws_rows = [[\<lparr>attr_r = Some ''B2'', attr_t = None, value_elem = Some (Some '' x '')\<rparr>]]\<rparr>) []
       = Inr \<lparr>cells = [((1, 1), '' x '')], max_row = 1, max_col = 1\<rparr>"
proof -
  let ?b = "\<lparr>attr_r = Some ''B2'', attr_t = None, value_elem = Some (Some '' x '')\<rparr>"
  let ?c = "\<lparr>attr_r = Some ''C3'', attr_t = None, value_elem = Some (Some ''  '')\<rparr>"
  let ?ws = "Document \<lparr>ws_dimension = None, ws_rows = [[?b]]\<rparr>"
  let ?g = "\<lparr>cells = [((1, 1), '' x '')], max_row = 1, max_col = 1\<rparr>"
  have rb: "attr_r ?b = Some ''B2''" and rc: "attr_r ?c = Some ''C3''"
    by simp_all
  have cb: "excel_cell_to_coords 4300 ''B2'' = Inr (Some (1, 1))"
    and cc: "excel_cell_to_coords 4300 ''C3'' = Inr (Some (2, 2))"
    by code_simp+
  have vb: "cell_value_of 4300 [] ?b = Inr '' x ''" and vc: "cell_value_of 4300 [] ?c = Inr ''  ''"
    by code_simp+
  have sb: "strip '' x '' \<noteq> []" and sc: "strip ''  '' = []"
    by code_simp+
  have run: "parse_worksheet_xml 4300 ?ws [] = Inr ?g"
    by code_simp
  note b = stored_value_as_resolved [OF rb cb vb, of empty_grid ?ws ?g]
  note c = stored_value_as_resolved [OF rc cc vc, of empty_grid ?ws ?g]
  have "\<exists>g'. parse_cell 4300 [] empty_grid ?b = Inr g' \<and> map_of (cells g') (1, 1) = Some '' x ''"
    using b sb by blast
  moreover have "parse_cell 4300 [] empty_grid ?c = Inr empty_grid"
    using c sc by blast
  moreover have "\<forall>v'\<in>snd ` set (cells ?g). strip v' \<noteq> []"
    using b run by blast
  ultimately show ?thesis
    using cb cc vb vc sb sc run by simp
qed

text \<open>
  C10. For a cell of shared-string type whose value parses to a negative integer \<open>-k\<close>,
  with \<open>k\<close> at most the length of the table, the value of the cell is the table entry
  \<open>k\<close> places from the end; no fallback applies.
\<close>

theorem negative_index_counts_from_end:
  assumes "attr_t cell = Some ''s''" and "value_elem cell = Some (Some s)"
    and "int_literal lim s = Inr (- int k)" and "1 \<le> k" and "k \<le> length shared_strings"
  shows "cell_value_of lim shared_strings cell = Inr (shared_strings ! (length shared_strings - k))"
proof -
  have "nat (- int k + int (length shared_strings)) = length shared_strings - k"
    using assms(5) by simp
  then have "getitem shared_strings (- int k) = Inr (shared_strings ! (length shared_strings - k))"
    using assms(4,5) by (simp add: getitem_def)
  then show ?thesis
    using assms by (simp add: cell_value_of_def shared_string_lookup_def py_int_def)
qed

theorem negative_index_counts_from_end_witness:
  "int_literal 4300 ''-1'' = Inr (- int 1) \<and> (1::nat) \<le> length [''a'', ''b'', ''c'']
   \<and> cell_value_of 4300 [''a'', ''b'', ''c'']
        \<lparr>attr_r = Some ''A1'', attr_t = Some ''s'', value_elem = Some (Some ''-1'')\<rparr> = Inr ''c''"
proof -
  let ?cell = "\<lparr>attr_r = Some ''A1'', attr_t = Some ''s'', value_elem = Some (Some ''-1'')\<rparr>"
  have t: "attr_t ?cell = Some ''s''" and v: "value_elem ?cell = Some (Some ''-1'')"
    by simp_all
  have i: "int_literal 4300 ''-1'' = Inr (- int 1)"
    by code_simp
  have k: "(1::nat) \<le> 1" "(1::nat) \<le> length [''a'', ''b'', ''c'']"
    by simp_all
  show ?thesis
    using i negative_index_counts_from_end [OF t v i k] by simp
qed

section \<open>The claim on the serializer\<close>

lemma row_data_nonblank:
  "list_ex (\<lambda>cell. strip cell \<noteq> []) (row_data_of cs max_c r) \<longleftrightarrow>
     (\<exists>c. 0 \<le> c \<and> c \<le> max_c \<and> strip (cells_get cs (r, c)) \<noteq> [])"
  by (auto simp: row_data_of_def list_ex_iff)

lemma cells_to_csv_rows:
  "cells_to_csv cs max_r max_c =
     map (row_data_of cs max_c)
       (filter (\<lambda>r. \<exists>c. 0 \<le> c \<and> c \<le> max_c \<and> strip (cells_get cs (r, c)) \<noteq> []) [0..max_r])"
  by (simp add: cells_to_csv_def filter_map comp_def row_data_nonblank)

lemma row_data_length: "length (row_data_of cs max_c r) = nat (max_c + 1)"
  by (simp add: row_data_of_def)

lemma row_data_nth:
  assumes "0 \<le> c" and "c \<le> max_c"
  shows "row_data_of cs max_c r ! nat c = (case map_of cs (r, c) of None \<Rightarrow> [] | Some v \<Rightarrow> v)"
proof -
  have "nat c < length [0..max_c]"
    using assms by simp
  moreover have "[0..max_c] ! nat c = c"
    using assms by (simp add: nth_upto)
  ultimately show ?thesis
    by (simp add: row_data_of_def cells_get_def)
qed

text \<open>
  C7. The serializer goes through the row indices 0 to \<open>max_row\<close> and, in each row,
  through the column indices 0 to \<open>max_col\<close>; an entry that the grid does not have is the
  empty string; a row is written if and only if one of its cells is non-empty after
  trimming, and the rows written keep their order. A grid with non-blank cells in row 0
  and in row 2 only gives exactly 2 rows: row 1 is not written.
\<close>

theorem blank_rows_dropped:
  "cells_to_csv cs max_r max_c =
     map (row_data_of cs max_c)
       (filter (\<lambda>r. \<exists>c. 0 \<le> c \<and> c \<le> max_c \<and> strip (cells_get cs (r, c)) \<noteq> []) [0..max_r])
   \<and> length (row_data_of cs max_c r) = nat (max_c + 1)
   \<and> (0 \<le> c \<and> c \<le> max_c \<longrightarrow>
        row_data_of cs max_c r ! nat c = (case map_of cs (r, c) of None \<Rightarrow> [] | Some v \<Rightarrow> v))
   \<and> (max_r = 2
        \<and> (\<exists>c. 0 \<le> c \<and> c \<le> max_c \<and> strip (cells_get cs (0, c)) \<noteq> [])
        \<and> (\<forall>c. 0 \<le> c \<and> c \<le> max_c \<longrightarrow> strip (cells_get cs (1, c)) = [])
        \<and> (\<exists>c. 0 \<le> c \<and> c \<le> max_c \<and> strip (cells_get cs (2, c)) \<noteq> [])
        \<longrightarrow> cells_to_csv cs max_r max_c = [row_data_of cs max_c 0, row_data_of cs max_c 2]
            \<and> length (cells_to_csv cs max_r max_c) = 2)"
proof -
  have three: "[0..2] = [0, 1, 2::int]"
    by (simp add: upto.simps)
  have "cells_to_csv cs 2 max_c = [row_data_of cs max_c 0, row_data_of cs max_c 2]"
    if "\<exists>c. 0 \<le> c \<and> c \<le> max_c \<and> strip (cells_get cs (0, c)) \<noteq> []"
      and "\<forall>c. 0 \<le> c \<and> c \<le> max_c \<longrightarrow> strip (cells_get cs (1, c)) = []"
      and "\<exists>c. 0 \<le> c \<and> c \<le> max_c \<and> strip (cells_get cs (2, c)) \<noteq> []"
    using that unfolding cells_to_csv_rows three by auto
  then show ?thesis
    using cells_to_csv_rows [of cs max_r max_c] row_data_length [of cs max_c r]
      row_data_nth [of c max_c cs r]
    by auto
qed

theorem blank_rows_dropped_witness:
  "cells_to_csv [((0, 0), ''a''), ((2, 1), ''b'')] 2 1 = [[''a'', []], [[], ''b'']]
   \<and> row_data_of [((0, 0), ''a''), ((2, 1), ''b'')] 1 2 ! nat 1 = ''b''
   \<and> length (cells_to_csv [((0, 0), ''a''), ((2, 1), ''b'')] 2 1) = 2"
proof -
  let ?cs = "[((0::int, 0::int), ''a''), ((2, 1), ''b'')]"
  have r0: "strip (cells_get ?cs (0, 0)) \<noteq> []" and r2: "strip (cells_get ?cs (2, 1)) \<noteq> []"
    by code_simp+
  have b0: "strip (cells_get ?cs (1, 0)) = []" and b1: "strip (cells_get ?cs (1, 1)) = []"
    by code_simp+
  have r1: "\<forall>c. 0 \<le> c \<and> c \<le> 1 \<longrightarrow> strip (cells_get ?cs (1, c)) = []"
  proof (intro allI impI)
    fix c :: int
    assume "0 \<le> c \<and> c \<le> 1"
    then have "c = 0 \<or> c = 1" by auto
    then show "strip (cells_get ?cs (1, c)) = []"
      using b0 b1 by auto
  qed
  have e0: "\<exists>c. 0 \<le> c \<and> c \<le> 1 \<and> strip (cells_get ?cs (0, c)) \<noteq> []"
    using r0 by (intro exI [of _ 0]) simp
  have e2: "\<exists>c. 0 \<le> c \<and> c \<le> 1 \<and> strip (cells_get ?cs (2, c)) \<noteq> []"
    using r2 by (intro exI [of _ 1]) simp
  have rows: "row_data_of ?cs 1 0 = [''a'', []]" "row_data_of ?cs 1 2 = [[], ''b'']"
    by code_simp+
  have "cells_to_csv ?cs 2 1 = [row_data_of ?cs 1 0, row_data_of ?cs 1 2]
        \<and> length (cells_to_csv ?cs 2 1) = 2"
    using blank_rows_dropped [of ?cs 2 1 2 1] e0 r1 e2 by blast
  moreover have "row_data_of ?cs 1 2 ! nat 1 = ''b''"
    using blank_rows_dropped [of ?cs 2 1 2 1] by simp
  ultimately show ?thesis
    using rows by simp
qed

section \<open>Properties of the conversion of a file\<close>

lemma process_worksheets_append:
  "process_worksheets lim zip_file base_name shared_strings (xs @ ys) =
     (case process_worksheets lim zip_file base_name shared_strings xs of
        (trace, None) \<Rightarrow>
          (let (later, outcome) = process_worksheets lim zip_file base_name shared_strings ys
           in (trace @ later, outcome))
      | (trace, Some e) \<Rightarrow> (trace, Some e))"
proof (induction xs)
  case Nil
  then show ?case by (simp split: prod.splits)
next
  case (Cons x xs)
  show ?case
  proof (cases "parse_part lim zip_file x shared_strings")
    case (Inl e)
    then show ?thesis by simp
  next
    case (Inr g)
    then show ?thesis
      using Cons.IH by (auto simp: Let_def split: prod.splits option.splits)
  qed
qed

lemma process_worksheets_error:
  assumes "parse_part lim zip_file bad shared_strings = Inl e"
  shows "process_worksheets lim zip_file base_name shared_strings (bad # after) =
           ([Print (Processing bad)], Some e)"
  using assms by simp

lemma process_worksheets_stops:
  assumes "process_worksheets lim zip_file base_name shared_strings before = (trace, None)"
    and "parse_part lim zip_file bad shared_strings = Inl e"
  shows "process_worksheets lim zip_file base_name shared_strings (before @ bad # after) =
           (trace @ [Print (Processing bad)], Some e)"
  unfolding process_worksheets_append
  using assms(1) process_worksheets_error [OF assms(2), of base_name after] by simp

lemma process_worksheets_returns:
  assumes "\<forall>f\<in>set fs. \<exists>g. parse_part lim zip_file f shared_strings = Inr g"
  shows "snd (process_worksheets lim zip_file base_name shared_strings fs) = None"
  using assms
proof (induction fs)
  case Nil
  then show ?case by simp
next
  case (Cons f fs)
  then obtain g where "parse_part lim zip_file f shared_strings = Inr g"
    by auto
  moreover have "snd (process_worksheets lim zip_file base_name shared_strings fs) = None"
    using Cons by simp
  ultimately show ?case
    by (auto simp: Let_def split: prod.splits)
qed

lemma process_worksheets_part_irrelevant:
  "process_worksheets lim (zip_file\<lparr>shared_strings_part := p\<rparr>) base_name shared_strings fs =
   process_worksheets lim zip_file base_name shared_strings fs"
  by (induction fs) (simp_all add: Let_def parse_part_def zip_open_def split: sum.splits)

lemma convert_package_error:
  assumes "parse_shared_strings zip_file = (printed, Inr shared_strings)"
    and "sort (filter is_worksheet_name (namelist zip_file)) = before @ bad # after"
    and "process_worksheets lim zip_file base_name shared_strings before = (trace, None)"
    and "parse_part lim zip_file bad shared_strings = Inl e"
  shows "convert_package lim base_name zip_file =
           (printed @ [Print (FoundWorksheets (length (before @ bad # after)))] @ trace @
              [Print (Processing bad)], Some e)"
proof -
  let ?files = "filter is_worksheet_name (namelist zip_file)"
  have len: "length ?files = length (before @ bad # after)"
    using arg_cong [OF assms(2), of length] by simp
  then have ne: "?files \<noteq> []" by auto
  have run: "process_worksheets lim zip_file base_name shared_strings (sort ?files) =
               (trace @ [Print (Processing bad)], Some e)"
    unfolding assms(2) using assms(3,4) by (rule process_worksheets_stops)
  show ?thesis
    unfolding convert_package_def assms(1) using ne by (simp add: Let_def run len)
qed

section \<open>The claim on failures in a worksheet\<close>

text \<open>
  C4, as the specification states it: an exception in one worksheet is caught at that
  worksheet and the remaining worksheets of the file are still processed. In a package
  whose first worksheet is not well-formed and whose second worksheet holds one cell,
  the exception leaves \<open>convert_xlsx_to_csv\<close> and the second worksheet is never
  processed, although on its own it is converted.
\<close>

theorem worksheet_error_aborts_file_counterexample:
  "convert_xlsx_to_csv 4300
     \<lparr>file_path = ''book.xlsx'', file_base_name = ''book'',
        file_content = Zip
          \<lparr>shared_strings_part = Some (Document []),
             members =
               [(''xl/worksheets/sheet1.xml'', NotWellFormed),
                (''xl/worksheets/sheet2.xml'',
                 Document \<lparr>ws_dimension = None,
                    ws_rows = [[\<lparr>attr_r = Some ''A1'', attr_t = None, value_elem = Some (Some ''x'')\<rparr>]]\<rparr>)]\<rparr>\<rparr>
     = ([Print (FoundWorksheets 2), Print (Processing ''xl/worksheets/sheet1.xml'')], Some ParseError)
   \<and> convert_xlsx_to_csv 4300
     \<lparr>file_path = ''book.xlsx'', file_base_name = ''book'',
        file_content = Zip
          \<lparr>shared_strings_part = Some (Document []),
             members =
               [(''xl/worksheets/sheet2.xml'',
                 Document \<lparr>ws_dimension = None,
                    ws_rows = [[\<lparr>attr_r = Some ''A1'', attr_t = None, value_elem = Some (Some ''x'')\<rparr>]]\<rparr>)]\<rparr>\<rparr>
     = ([Print (FoundWorksheets 1), Print (Processing ''xl/worksheets/sheet2.xml''),
         Print (FoundData 1 1 1), WriteCsv ''book_sheet2.csv'' [[''x'']],
         Print (SavedTo ''book_sheet2.csv'')], None)"
  by code_simp

text \<open>
  C4, amended. For every input file with several worksheet parts, an exception raised
  while decoding one worksheet is not caught at the worksheet: it leaves the conversion
  of the file. The worksheets before it, in sorted order, have been processed and their
  output stays; the worksheets after it are not processed. The exception is caught at
  the file: the file is counted as failed and the remaining files are processed.
\<close>

theorem worksheet_error_ends_file:
  assumes "file_content xlsx = Zip zip_file"
    and "parse_shared_strings zip_file = (printed, Inr shared_strings)"
    and "sort (filter is_worksheet_name (namelist zip_file)) = before @ bad # after"
    and "process_worksheets lim zip_file (file_base_name xlsx) shared_strings before = (trace, None)"
    and "parse_part lim zip_file bad shared_strings = Inl e"
  shows "convert_xlsx_to_csv lim xlsx =
           (printed @ [Print (FoundWorksheets (length (before @ bad # after)))] @ trace @
              [Print (Processing bad)], Some e)
       \<and> main_loop lim (xlsx # rest) successful failed =
           ([Print (ProcessingFile (file_path xlsx))] @
            (printed @ [Print (FoundWorksheets (length (before @ bad # after)))] @ trace @
               [Print (Processing bad)]) @
            [Print (ErrorConverting (file_path xlsx) e)] @
            fst (main_loop lim rest successful (failed + 1)),
            snd (main_loop lim rest successful (failed + 1)))"
proof -
  have conv: "convert_xlsx_to_csv lim xlsx =
           (printed @ [Print (FoundWorksheets (length (before @ bad # after)))] @ trace @
              [Print (Processing bad)], Some e)"
    unfolding convert_xlsx_to_csv_def assms(1)
    using convert_package_error [OF assms(2-5)] by simp
  have "path_exists xlsx"
    by (simp add: path_exists_def assms(1))
  then show ?thesis
    using conv by (simp add: case_prod_beta)
qed

theorem worksheet_error_ends_file_witness:
  "main 4300
     [\<lparr>file_path = ''a.xlsx'', file_base_name = ''a'',
        file_content = Zip
          \<lparr>shared_strings_part = Some (Document []),
             members =
               [(''xl/worksheets/sheet1.xml'',
                 Document \<lparr>ws_dimension = None,
                    ws_rows = [[\<lparr>attr_r = Some ''A1'', attr_t = None, value_elem = Some (Some ''x'')\<rparr>]]\<rparr>),
                (''xl/worksheets/sheet2.xml'', NotWellFormed),
                (''xl/worksheets/sheet3.xml'',
                 Document \<lparr>ws_dimension = None,
                    ws_rows = [[\<lparr>attr_r = Some ''A1'', attr_t = None, value_elem = Some (Some ''y'')\<rparr>]]\<rparr>)]\<rparr>\<rparr>,
      \<lparr>file_path = ''b.xlsx'', file_base_name = ''b'',
        file_content = Zip
          \<lparr>shared_strings_part = Some (Document []),
             members =
               [(''xl/worksheets/sheet1.xml'',
                 Document \<lparr>ws_dimension = None,
                    ws_rows = [[\<lparr>attr_r = Some ''A1'', attr_t = None, value_elem = Some (Some ''z'')\<rparr>]]\<rparr>)]\<rparr>\<rparr>]
   = ([Print (ProcessingFile ''a.xlsx''), Print (FoundWorksheets 3),
       Print (Processing ''xl/worksheets/sheet1.xml''), Print (FoundData 1 1 1),
       WriteCsv ''a_sheet1.csv'' [[''x'']], Print (SavedTo ''a_sheet1.csv''),
       Print (Processing ''xl/worksheets/sheet2.xml''),
       Print (ErrorConverting ''a.xlsx'' ParseError),
       Print (ProcessingFile ''b.xlsx''), Print (FoundWorksheets 1),
       Print (Processing ''xl/worksheets/sheet1.xml''), Print (FoundData 1 1 1),
       WriteCsv ''b_sheet1.csv'' [[''z'']], Print (SavedTo ''b_sheet1.csv''),
       Print (Converted ''b.xlsx''),
       Print (Summary 1 1 2), Print AllSaved, Print (HadErrors 1)], 1, 1)"
proof -
  let ?one = "\<lambda>v. Document \<lparr>ws_dimension = None,
                    ws_rows = [[\<lparr>attr_r = Some ''A1'', attr_t = None, value_elem = Some (Some v)\<rparr>]]\<rparr>"
  let ?za = "\<lparr>shared_strings_part = Some (Document []),
             members = [(''xl/worksheets/sheet1.xml'', ?one ''x''),
                (''xl/worksheets/sheet2.xml'', NotWellFormed),
                (''xl/worksheets/sheet3.xml'', ?one ''y'')]\<rparr>"
  let ?zb = "\<lparr>shared_strings_part = Some (Document []),
             members = [(''xl/worksheets/sheet1.xml'', ?one ''z'')]\<rparr>"
  let ?a = "\<lparr>file_path = ''a.xlsx'', file_base_name = ''a'', file_content = Zip ?za\<rparr>"
  let ?b = "\<lparr>file_path = ''b.xlsx'', file_base_name = ''b'', file_content = Zip ?zb\<rparr>"
  have h1: "file_content ?a = Zip ?za"
    by simp
  have h2: "parse_shared_strings ?za = ([], Inr [])"
    by code_simp
  have h3: "sort (filter is_worksheet_name (namelist ?za)) =
              [''xl/worksheets/sheet1.xml''] @ ''xl/worksheets/sheet2.xml'' # [''xl/worksheets/sheet3.xml'']"
    by code_simp
  have h4: "process_worksheets 4300 ?za (file_base_name ?a) [] [''xl/worksheets/sheet1.xml''] =
              ([Print (Processing ''xl/worksheets/sheet1.xml''), Print (FoundData 1 1 1),
                WriteCsv ''a_sheet1.csv'' [[''x'']], Print (SavedTo ''a_sheet1.csv'')], None)"
    by code_simp
  have h5: "parse_part 4300 ?za ''xl/worksheets/sheet2.xml'' [] = Inl ParseError"
    by code_simp
  have rest: "main_loop 4300 [?b] 0 (0 + 1) =
     ([Print (ProcessingFile ''b.xlsx''), Print (FoundWorksheets 1),
       Print (Processing ''xl/worksheets/sheet1.xml''), Print (FoundData 1 1 1),
       WriteCsv ''b_sheet1.csv'' [[''z'']], Print (SavedTo ''b_sheet1.csv''),
       Print (Converted ''b.xlsx'')], 1, 1)"
    by code_simp
  have "main_loop 4300 [?a, ?b] 0 0 =
     ([Print (ProcessingFile ''a.xlsx''), Print (FoundWorksheets 3),
       Print (Processing ''xl/worksheets/sheet1.xml''), Print (FoundData 1 1 1),
       WriteCsv ''a_sheet1.csv'' [[''x'']], Print (SavedTo ''a_sheet1.csv''),
       Print (Processing ''xl/worksheets/sheet2.xml''),
       Print (ErrorConverting ''a.xlsx'' ParseError),
       Print (ProcessingFile ''b.xlsx''), Print (FoundWorksheets 1),
       Print (Processing ''xl/worksheets/sheet1.xml''), Print (FoundData 1 1 1),
       WriteCsv ''b_sheet1.csv'' [[''z'']], Print (SavedTo ''b_sheet1.csv''),
       Print (Converted ''b.xlsx'')], 1, 1)"
    using worksheet_error_ends_file [OF h1 h2 h3 h4 h5, of "[?b]" 0 0]
    unfolding rest by simp
  then show ?thesis
    by (simp add: main_def)
qed

section \<open>The claim on a missing shared-string part\<close>

lemma cell_value_inline:
  assumes "attr_t cell \<noteq> Some ''s''"
  shows "cell_value_of lim shared_strings cell =
           Inr (case value_elem cell of None \<Rightarrow> [] | Some text \<Rightarrow> text_or_empty text)"
  using assms by (simp add: cell_value_of_def split: option.splits)

lemma parse_cell_inline:
  assumes "attr_t cell \<noteq> Some ''s''"
  shows "parse_cell lim shared_strings g cell = parse_cell lim [] g cell"
  unfolding parse_cell_def cell_value_inline [OF assms] ..

lemma parse_cells_inline:
  assumes "\<forall>cell\<in>set row. attr_t cell \<noteq> Some ''s''"
  shows "parse_cells lim shared_strings g row = parse_cells lim [] g row"
  using assms
proof (induction row arbitrary: g)
  case Nil
  then show ?case by simp
next
  case (Cons cell rest)
  then have "attr_t cell \<noteq> Some ''s''"
    by simp
  then have "parse_cell lim shared_strings g cell = parse_cell lim [] g cell"
    by (rule parse_cell_inline)
  moreover have "parse_cells lim shared_strings g' rest = parse_cells lim [] g' rest" for g'
    using Cons.prems by (intro Cons.IH) simp
  ultimately show ?case
    by (simp split: sum.splits)
qed

lemma parse_rows_inline:
  assumes "\<forall>row\<in>set rs. \<forall>cell\<in>set row. attr_t cell \<noteq> Some ''s''"
  shows "parse_rows lim shared_strings g rs = parse_rows lim [] g rs"
  using assms
proof (induction rs arbitrary: g)
  case Nil
  then show ?case by simp
next
  case (Cons row rest)
  then have "\<forall>cell\<in>set row. attr_t cell \<noteq> Some ''s''"
    by simp
  then have "parse_cells lim shared_strings g row = parse_cells lim [] g row"
    by (rule parse_cells_inline)
  moreover have "parse_rows lim shared_strings g' rest = parse_rows lim [] g' rest" for g'
    using Cons.prems by (intro Cons.IH) simp
  ultimately show ?case
    by (simp split: sum.splits)
qed

lemma parse_part_part_irrelevant:
  "parse_part lim (zip_file\<lparr>shared_strings_part := p\<rparr>) f shared_strings =
   parse_part lim zip_file f shared_strings"
  by (simp add: parse_part_def zip_open_def)

lemma convert_package_absent:
  assumes "shared_strings_part zip_file = None"
  shows "convert_package lim base_name zip_file =
           (Print NoSharedStrings #
              fst (convert_package lim base_name (zip_file\<lparr>shared_strings_part := Some (Document [])\<rparr>)),
            snd (convert_package lim base_name (zip_file\<lparr>shared_strings_part := Some (Document [])\<rparr>)))"
  using assms
  by (simp add: convert_package_def parse_shared_strings_def namelist_def Let_def
      process_worksheets_part_irrelevant case_prod_beta)

lemma convert_package_returns:
  assumes "parse_shared_strings zip_file = (printed, Inr shared_strings)"
    and "\<forall>f\<in>set (namelist zip_file). is_worksheet_name f \<longrightarrow>
           (\<exists>g. parse_part lim zip_file f shared_strings = Inr g)"
  shows "snd (convert_package lim base_name zip_file) = None"
proof -
  let ?files = "filter is_worksheet_name (namelist zip_file)"
  have "\<forall>f\<in>set (sort ?files). \<exists>g. parse_part lim zip_file f shared_strings = Inr g"
    using assms(2) by simp
  then have "snd (process_worksheets lim zip_file base_name shared_strings (sort ?files)) = None"
    by (rule process_worksheets_returns)
  then show ?thesis
    unfolding convert_package_def assms(1) by (simp add: Let_def case_prod_beta)
qed

text \<open>
  C9. If the package has no shared-string part, loading the table gives the empty table
  and prints a warning, and raises nothing. The conversion of the file goes on as with a
  shared-string part that holds no entry, the warning apart; it returns without an
  exception when each of its worksheets is decoded against the empty table. A cell that
  is not of shared-string type is given the text of its value element, and a worksheet
  without cells of shared-string type is decoded against the empty table as against any
  other table.
\<close>

theorem missing_shared_strings_not_fatal:
  assumes "file_content xlsx = Zip zip_file" and "shared_strings_part zip_file = None"
  shows "parse_shared_strings zip_file = ([Print NoSharedStrings], Inr [])
       \<and> convert_xlsx_to_csv lim xlsx =
           (Print NoSharedStrings #
              fst (convert_xlsx_to_csv lim
                     (xlsx\<lparr>file_content := Zip (zip_file\<lparr>shared_strings_part := Some (Document [])\<rparr>)\<rparr>)),
            snd (convert_xlsx_to_csv lim
                     (xlsx\<lparr>file_content := Zip (zip_file\<lparr>shared_strings_part := Some (Document [])\<rparr>)\<rparr>)))
       \<and> ((\<forall>f\<in>set (namelist zip_file). is_worksheet_name f \<longrightarrow>
              (\<exists>g. parse_part lim zip_file f [] = Inr g)) \<longrightarrow>
            snd (convert_xlsx_to_csv lim xlsx) = None)
       \<and> (attr_t cell \<noteq> Some ''s'' \<longrightarrow>
            cell_value_of lim [] cell =
              Inr (case value_elem cell of None \<Rightarrow> [] | Some text \<Rightarrow> text_or_empty text))
       \<and> ((\<forall>row\<in>set (ws_rows ws). \<forall>cell\<in>set row. attr_t cell \<noteq> Some ''s'') \<longrightarrow>
            parse_worksheet_xml lim (Document ws) [] = parse_worksheet_xml lim (Document ws) shared_strings)"
proof -
  have load: "parse_shared_strings zip_file = ([Print NoSharedStrings], Inr [])"
    using assms(2) by (simp add: parse_shared_strings_def)
  have same: "convert_xlsx_to_csv lim xlsx =
           (Print NoSharedStrings #
              fst (convert_xlsx_to_csv lim
                     (xlsx\<lparr>file_content := Zip (zip_file\<lparr>shared_strings_part := Some (Document [])\<rparr>)\<rparr>)),
            snd (convert_xlsx_to_csv lim
                     (xlsx\<lparr>file_content := Zip (zip_file\<lparr>shared_strings_part := Some (Document [])\<rparr>)\<rparr>)))"
    using convert_package_absent [OF assms(2), of lim "file_base_name xlsx"]
    by (simp add: convert_xlsx_to_csv_def assms(1))
  have returns: "snd (convert_xlsx_to_csv lim xlsx) = None"
    if "\<forall>f\<in>set (namelist zip_file). is_worksheet_name f \<longrightarrow> (\<exists>g. parse_part lim zip_file f [] = Inr g)"
    using convert_package_returns [OF load that, of "file_base_name xlsx"]
    by (simp add: convert_xlsx_to_csv_def assms(1))
  have inline: "cell_value_of lim [] cell =
              Inr (case value_elem cell of None \<Rightarrow> [] | Some text \<Rightarrow> text_or_empty text)"
    if "attr_t cell \<noteq> Some ''s''"
    using that by (rule cell_value_inline)
  have sheet: "parse_worksheet_xml lim (Document ws) [] = parse_worksheet_xml lim (Document ws) shared_strings"
    if "\<forall>row\<in>set (ws_rows ws). \<forall>cell\<in>set row. attr_t cell \<noteq> Some ''s''"
    using parse_rows_inline [OF that, of lim shared_strings empty_grid]
    by (simp add: parse_worksheet_xml_def)
  show ?thesis
  proof (intro conjI impI)
    show "parse_shared_strings zip_file = ([Print NoSharedStrings], Inr [])"
      by (rule load)
  qed (rule same, erule returns, erule inline, erule sheet)
qed

theorem missing_shared_strings_not_fatal_witness:
  "parse_shared_strings
     \<lparr>shared_strings_part = None,
        members =
          [(''xl/worksheets/sheet1.xml'',
            Document \<lparr>ws_dimension = None,
               ws_rows =
                 [[\<lparr>attr_r = Some ''A1'', attr_t = None, value_elem = Some (Some ''Name'')\<rparr>,
                   \<lparr>attr_r = Some ''B1'', attr_t = None, value_elem = Some (Some ''Age'')\<rparr>],
                  [\<lparr>attr_r = Some ''A2'', attr_t = None, value_elem = Some (Some ''Alice'')\<rparr>,
                   \<lparr>attr_r = Some ''B2'', attr_t = None, value_elem = Some (Some ''30'')\<rparr>]]\<rparr>)]\<rparr>
     = ([Print NoSharedStrings], Inr [])
   \<and> convert_xlsx_to_csv 4300
       \<lparr>file_path = ''book.xlsx'', file_base_name = ''book'',
          file_content = Zip
            \<lparr>shared_strings_part = None,
               members =
                 [(''xl/worksheets/sheet1.xml'',
                   Document \<lparr>ws_dimension = None,
                      ws_rows =
                        [[\<lparr>attr_r = Some ''A1'', attr_t = None, value_elem = Some (Some ''Name'')\<rparr>,
                          \<lparr>attr_r = Some ''B1'', attr_t = None, value_elem = Some (Some ''Age'')\<rparr>],
                         [\<lparr>attr_r = Some ''A2'', attr_t = None, value_elem = Some (Some ''Alice'')\<rparr>,
                          \<lparr>attr_r = Some ''B2'', attr_t = None, value_elem = Some (Some ''30'')\<rparr>]]\<rparr>)]\<rparr>\<rparr>
     = ([Print NoSharedStrings, Print (FoundWorksheets 1),
         Print (Processing ''xl/worksheets/sheet1.xml''), Print (FoundData 4 2 2),
         WriteCsv ''book_sheet1.csv'' [[''Name'', ''Age''], [''Alice'', ''30'']],
         Print (SavedTo ''book_sheet1.csv'')], None)
   \<and> cell_value_of 4300 [] \<lparr>attr_r = Some ''B2'', attr_t = None, value_elem = Some (Some ''30'')\<rparr> = Inr ''30''"
proof -
  let ?cell = "\<lparr>attr_r = Some ''B2'', attr_t = None, value_elem = Some (Some ''30'')\<rparr>"
  let ?ws = "\<lparr>ws_dimension = None,
               ws_rows =
                 [[\<lparr>attr_r = Some ''A1'', attr_t = None, value_elem = Some (Some ''Name'')\<rparr>,
                   \<lparr>attr_r = Some ''B1'', attr_t = None, value_elem = Some (Some ''Age'')\<rparr>],
                  [\<lparr>attr_r = Some ''A2'', attr_t = None, value_elem = Some (Some ''Alice'')\<rparr>, ?cell]]\<rparr>"
  let ?zip = "\<lparr>shared_strings_part = None, members = [(''xl/worksheets/sheet1.xml'', Document ?ws)]\<rparr>"
  let ?xlsx = "\<lparr>file_path = ''book.xlsx'', file_base_name = ''book'', file_content = Zip ?zip\<rparr>"
  have h1: "file_content ?xlsx = Zip ?zip" and h2: "shared_strings_part ?zip = None"
    by simp_all
  note inst = missing_shared_strings_not_fatal [OF h1 h2, of 4300 ?cell ?ws "[]"]
  have with_table: "convert_xlsx_to_csv 4300
          (?xlsx\<lparr>file_content := Zip (?zip\<lparr>shared_strings_part := Some (Document [])\<rparr>)\<rparr>)
        = ([Print (FoundWorksheets 1),
         Print (Processing ''xl/worksheets/sheet1.xml''), Print (FoundData 4 2 2),
         WriteCsv ''book_sheet1.csv'' [[''Name'', ''Age''], [''Alice'', ''30'']],
         Print (SavedTo ''book_sheet1.csv'')], None)"
    by code_simp
  have load: "parse_shared_strings ?zip = ([Print NoSharedStrings], Inr [])"
    using inst by (rule conjunct1)
  have conv: "convert_xlsx_to_csv 4300 ?xlsx =
     ([Print NoSharedStrings, Print (FoundWorksheets 1),
         Print (Processing ''xl/worksheets/sheet1.xml''), Print (FoundData 4 2 2),
         WriteCsv ''book_sheet1.csv'' [[''Name'', ''Age''], [''Alice'', ''30'']],
         Print (SavedTo ''book_sheet1.csv'')], None)"
    using conjunct1 [OF conjunct2 [OF inst]] unfolding with_table by simp
  have "attr_t ?cell \<noteq> Some ''s''"
    by simp
  then have "cell_value_of 4300 [] ?cell = Inr ''30''"
    using inst by (simp add: text_or_empty_def)
  with load conv show ?thesis
    by (intro conjI)
qed

end
